theory Spec2Isabelle
  imports Main
begin

section \<open>The element type\<close>

text \<open>
  \<^verbatim>\<open>Vector<T>\<close> is a template. What an instance needs from outside is collected in a
  record: the two compile-time traits that \<^verbatim>\<open>if constexpr\<close> tests, T's special member
  functions, \<^verbatim>\<open>sizeof(T)\<close>, and the allocation function \<^verbatim>\<open>operator new\<close> that the
  instance runs against. A member function that throws returns \<open>None\<close>. A move leaves its
  source alive in some moved-from state, so the moving operations return the new state of
  the source as well. Destructors do not throw. \<open>operator_new E bytes\<close> says whether
  \<^verbatim>\<open>operator new(bytes)\<close> returns a block of that many bytes; otherwise it throws
  \<^verbatim>\<open>std::bad_alloc\<close>.
\<close>

record 'a element_type =
  is_nothrow_move_constructible :: bool
  is_copy_constructible :: bool
  value_ctor :: "'a option"                          \<comment> \<open>\<^verbatim>\<open>T()\<close>\<close>
  copy_ctor :: "'a \<Rightarrow> 'a option"                    \<comment> \<open>\<^verbatim>\<open>T(const T&)\<close>\<close>
  move_ctor :: "'a \<Rightarrow> ('a \<times> 'a) option"           \<comment> \<open>\<^verbatim>\<open>T(T&&)\<close>: new object, source afterwards\<close>
  copy_assign :: "'a \<Rightarrow> 'a \<Rightarrow> 'a option"            \<comment> \<open>\<^verbatim>\<open>dst = src\<close>: target afterwards\<close>
  move_assign :: "'a \<Rightarrow> 'a \<Rightarrow> ('a \<times> 'a) option"   \<comment> \<open>\<^verbatim>\<open>dst = std::move(src)\<close>: target, source afterwards\<close>
  sizeof_T :: nat                                    \<comment> \<open>\<^verbatim>\<open>sizeof(T)\<close>, at least 1\<close>
  operator_new :: "nat \<Rightarrow> bool"                     \<comment> \<open>\<^verbatim>\<open>operator new(bytes)\<close> returns\<close>

section \<open>Outcomes\<close>

text \<open>
  A call returns normally with a result and the state it leaves, or lets an exception escape
  and leaves a state behind, or reaches \<^verbatim>\<open>std::terminate\<close> (an exception inside a
  \<^verbatim>\<open>noexcept\<close> function), or has undefined behaviour: a failed \<^verbatim>\<open>assert\<close>, a pointer
  outside its block, a read of a slot that holds no object.
\<close>

datatype ('r, 's) outcome = Normal 'r 's | Throws 's | Terminated | Undefined

section \<open>Blocks of slots and the standard algorithms\<close>

text \<open>
  A block of raw memory is a list of slots; a slot is \<open>None\<close> while it is uninitialized and
  \<open>Some x\<close> while an object with value \<open>x\<close> lives in it. Pointers into a block are offsets
  from its start. The algorithms of \<^verbatim>\<open><memory>\<close> and \<^verbatim>\<open><algorithm>\<close> that the
  source calls are loops over such offsets.
\<close>

type_synonym 'a block = "'a option list"

text \<open>\<^verbatim>\<open>std::destroy_at\<close>: the slot must hold an object.\<close>

definition destroy_at :: "'a block \<Rightarrow> nat \<Rightarrow> (unit, 'a block) outcome" where
  "destroy_at b p =
     (if p < length b \<and> b ! p \<noteq> None then Normal () (b[p := None]) else Undefined)"

text \<open>\<^verbatim>\<open>std::destroy_n(first, n)\<close>.\<close>

fun destroy_n :: "'a block \<Rightarrow> nat \<Rightarrow> nat \<Rightarrow> (unit, 'a block) outcome" where
  "destroy_n b first 0 = Normal () b"
| "destroy_n b first (Suc n) =
     (case destroy_at b first of
        Normal _ b' \<Rightarrow> destroy_n b' (Suc first) n
      | r \<Rightarrow> r)"

text \<open>
  \<^verbatim>\<open>std::uninitialized_value_construct_n(first, n)\<close>. When a constructor throws, the
  objects built so far are destroyed again before the exception leaves.
\<close>

fun uninitialized_value_construct_n ::
  "'a element_type \<Rightarrow> 'a block \<Rightarrow> nat \<Rightarrow> nat \<Rightarrow> (unit, 'a block) outcome" where
  "uninitialized_value_construct_n E b first 0 = Normal () b"
| "uninitialized_value_construct_n E b first (Suc n) =
     (if first < length b then
        (case value_ctor E of
           None \<Rightarrow> Throws b
         | Some x \<Rightarrow>
             (case uninitialized_value_construct_n E (b[first := Some x]) (Suc first) n of
                Throws b' \<Rightarrow> Throws (b'[first := None])
              | r \<Rightarrow> r))
      else Undefined)"

text \<open>
  \<^verbatim>\<open>std::uninitialized_copy_n(first, n, result)\<close> from block \<open>src\<close> into a different
  block \<open>dst\<close>.
\<close>

fun uninitialized_copy_n ::
  "'a element_type \<Rightarrow> 'a block \<Rightarrow> nat \<Rightarrow> nat \<Rightarrow> 'a block \<Rightarrow> nat \<Rightarrow> (unit, 'a block) outcome" where
  "uninitialized_copy_n E src first 0 dst result = Normal () dst"
| "uninitialized_copy_n E src first (Suc n) dst result =
     (if first < length src \<and> result < length dst then
        (case src ! first of
           None \<Rightarrow> Undefined
         | Some x \<Rightarrow>
             (case copy_ctor E x of
                None \<Rightarrow> Throws dst
              | Some y \<Rightarrow>
                  (case uninitialized_copy_n E src (Suc first) n (dst[result := Some y]) (Suc result) of
                     Throws dst' \<Rightarrow> Throws (dst'[result := None])
                   | r \<Rightarrow> r)))
      else Undefined)"

text \<open>
  \<^verbatim>\<open>std::uninitialized_move_n(first, n, result)\<close> from block \<open>src\<close> into a different
  block \<open>dst\<close>. The state is the pair of both blocks: the sources stay alive, moved-from.
\<close>

fun uninitialized_move_n ::
  "'a element_type \<Rightarrow> 'a block \<Rightarrow> nat \<Rightarrow> nat \<Rightarrow> 'a block \<Rightarrow> nat
     \<Rightarrow> (unit, 'a block \<times> 'a block) outcome" where
  "uninitialized_move_n E src first 0 dst result = Normal () (src, dst)"
| "uninitialized_move_n E src first (Suc n) dst result =
     (if first < length src \<and> result < length dst then
        (case src ! first of
           None \<Rightarrow> Undefined
         | Some x \<Rightarrow>
             (case move_ctor E x of
                None \<Rightarrow> Throws (src, dst)
              | Some (y, x') \<Rightarrow>
                  (case uninitialized_move_n E (src[first := Some x']) (Suc first) n
                          (dst[result := Some y]) (Suc result) of
                     Throws (src', dst') \<Rightarrow> Throws (src', dst'[result := None])
                   | r \<Rightarrow> r)))
      else Undefined)"

text \<open>
  \<^verbatim>\<open>std::ranges::copy(first, first + n, result)\<close> from block \<open>src\<close> onto the live
  objects of a different block \<open>dst\<close>, by copy assignment.
\<close>

fun ranges_copy ::
  "'a element_type \<Rightarrow> 'a block \<Rightarrow> nat \<Rightarrow> nat \<Rightarrow> 'a block \<Rightarrow> nat \<Rightarrow> (unit, 'a block) outcome" where
  "ranges_copy E src first 0 dst result = Normal () dst"
| "ranges_copy E src first (Suc n) dst result =
     (if first < length src \<and> result < length dst then
        (case (src ! first, dst ! result) of
           (Some x, Some d) \<Rightarrow>
             (case copy_assign E d x of
                None \<Rightarrow> Throws dst
              | Some d' \<Rightarrow> ranges_copy E src (Suc first) n (dst[result := Some d']) (Suc result))
         | _ \<Rightarrow> Undefined)
      else Undefined)"

text \<open>
  \<^verbatim>\<open>std::ranges::move(first, first + n, result)\<close> inside one block, by move assignment,
  front to back.
\<close>

fun ranges_move ::
  "'a element_type \<Rightarrow> 'a block \<Rightarrow> nat \<Rightarrow> nat \<Rightarrow> nat \<Rightarrow> (unit, 'a block) outcome" where
  "ranges_move E b first 0 result = Normal () b"
| "ranges_move E b first (Suc n) result =
     (if first < length b \<and> result < length b then
        (case (b ! first, b ! result) of
           (Some x, Some d) \<Rightarrow>
             (case move_assign E d x of
                None \<Rightarrow> Throws b
              | Some (d', x') \<Rightarrow>
                  ranges_move E (b[first := Some x', result := Some d']) (Suc first) n (Suc result))
         | _ \<Rightarrow> Undefined)
      else Undefined)"

text \<open>
  \<^verbatim>\<open>std::ranges::move_backward(last - n, last, d_last)\<close> inside one block, by move
  assignment, back to front: \<^verbatim>\<open>*(--d_last) = std::move(*(--last))\<close>. The arguments
  \<open>lst\<close> and \<open>d_end\<close> are the source's \<^verbatim>\<open>last\<close> and \<^verbatim>\<open>d_last\<close>.
\<close>

fun ranges_move_backward ::
  "'a element_type \<Rightarrow> 'a block \<Rightarrow> nat \<Rightarrow> nat \<Rightarrow> nat \<Rightarrow> (unit, 'a block) outcome" where
  "ranges_move_backward E b 0 lst d_end = Normal () b"
| "ranges_move_backward E b (Suc n) lst d_end =
     (if 0 < lst \<and> lst - 1 < length b \<and> 0 < d_end \<and> d_end - 1 < length b then
        (case (b ! (lst - 1), b ! (d_end - 1)) of
           (Some x, Some d) \<Rightarrow>
             (case move_assign E d x of
                None \<Rightarrow> Throws b
              | Some (d', x') \<Rightarrow>
                  ranges_move_backward E (b[lst - 1 := Some x', d_end - 1 := Some d']) n
                    (lst - 1) (d_end - 1))
         | _ \<Rightarrow> Undefined)
      else Undefined)"

section \<open>RawMemory\<close>

text \<open>
  \<^verbatim>\<open>RawMemory<T>\<close> holds the pointer \<^verbatim>\<open>buffer_\<close> and the count \<^verbatim>\<open>capacity_\<close>. The class
  cannot be copied, so no two objects ever point at the same block, and the record holds the
  block itself where the class holds the pointer; \<^verbatim>\<open>nullptr\<close> is the empty block. A name
  cannot end in an underscore here, so the members \<^verbatim>\<open>buffer_\<close>, \<^verbatim>\<open>capacity_\<close>,
  \<^verbatim>\<open>data_\<close> and \<^verbatim>\<open>size_\<close> are written \<open>buffer_m\<close>, \<open>capacity_m\<close>, \<open>data_m\<close> and
  \<open>size_m\<close>.

  \<^verbatim>\<open>std::size_t\<close> has 64 bits and is modelled by \<open>nat\<close>, with the wrap-around written out in
  the two places where a value can leave the range. One is \<^verbatim>\<open>--size_\<close> at zero. The other
  is the byte count \<^verbatim>\<open>n * sizeof(T)\<close> in \<^verbatim>\<open>Allocate\<close>, where \<open>n\<close> may be the argument of
  \<^verbatim>\<open>Reserve\<close> or \<^verbatim>\<open>Resize\<close>: the product is taken modulo \<open>2 ^ 64\<close>, and the block that
  \<^verbatim>\<open>operator new\<close> returns has room for as many slots as the wrapped byte count holds,
  while \<^verbatim>\<open>capacity_\<close> is set to \<open>n\<close>. A count of slots of a block that exists stays far
  below \<open>2 ^ 63\<close>, so \<^verbatim>\<open>size_ * 2\<close> is not reduced. \<^verbatim>\<open>operator new\<close> may throw
  \<^verbatim>\<open>std::bad_alloc\<close>: \<^verbatim>\<open>Allocate\<close> and the constructor then return \<open>None\<close>.
\<close>

record 'a RawMemory =
  buffer_m :: "'a block"
  capacity_m :: nat

definition Allocate :: "'a element_type \<Rightarrow> nat \<Rightarrow> 'a block option" where
  "Allocate E n =
     (if n \<noteq> 0 then
        (let bytes = (n * sizeof_T E) mod 2 ^ 64 in
         if operator_new E bytes then Some (replicate (bytes div sizeof_T E) None) else None)
      else Some [])"

text \<open>\<^verbatim>\<open>RawMemory()\<close> and \<^verbatim>\<open>RawMemory(std::size_t capacity)\<close>.\<close>

definition RawMemory_default :: "'a RawMemory" where
  "RawMemory_default = \<lparr>buffer_m = [], capacity_m = 0\<rparr>"

definition RawMemory_sized :: "'a element_type \<Rightarrow> nat \<Rightarrow> 'a RawMemory option" where
  "RawMemory_sized E capacity =
     (case Allocate E capacity of
        None \<Rightarrow> None
      | Some b \<Rightarrow> Some \<lparr>buffer_m = b, capacity_m = capacity\<rparr>)"

text \<open>\<^verbatim>\<open>RawMemory(RawMemory&& other)\<close>: the new object and what is left of \<open>other\<close>.\<close>

definition RawMemory_move :: "'a RawMemory \<Rightarrow> 'a RawMemory \<times> 'a RawMemory" where
  "RawMemory_move other =
     (\<lparr>buffer_m = buffer_m other, capacity_m = capacity_m other\<rparr>,
      \<lparr>buffer_m = [], capacity_m = 0\<rparr>)"

text \<open>\<^verbatim>\<open>Swap\<close>: the two objects afterwards, \<open>this\<close> first.\<close>

definition RawMemory_Swap :: "'a RawMemory \<Rightarrow> 'a RawMemory \<Rightarrow> 'a RawMemory \<times> 'a RawMemory" where
  "RawMemory_Swap this other =
     (\<lparr>buffer_m = buffer_m other, capacity_m = capacity_m other\<rparr>,
      \<lparr>buffer_m = buffer_m this, capacity_m = capacity_m this\<rparr>)"

text \<open>
  \<^verbatim>\<open>operator=(RawMemory&& other)\<close> for two different objects (\<^verbatim>\<open>this != &other\<close>): the
  temporary takes the block of \<open>other\<close>, is swapped with \<open>this\<close>, and its destructor frees
  the block \<open>this\<close> had.
\<close>

definition RawMemory_move_assign :: "'a RawMemory \<Rightarrow> 'a RawMemory \<Rightarrow> 'a RawMemory \<times> 'a RawMemory" where
  "RawMemory_move_assign this other =
     (let (temp, other') = RawMemory_move other;
          (this', temp') = RawMemory_Swap this temp
      in (this', other'))"

text \<open>
  \<^verbatim>\<open>operator+(offset)\<close> with its \<^verbatim>\<open>assert(offset <= capacity_)\<close>, and \<^verbatim>\<open>operator[]\<close>
  with its \<^verbatim>\<open>assert(index < capacity_)\<close>; \<open>None\<close> is the failed assertion.
\<close>

definition RawMemory_plus :: "'a RawMemory \<Rightarrow> nat \<Rightarrow> nat option" where
  "RawMemory_plus m offset = (if offset \<le> capacity_m m then Some offset else None)"

definition RawMemory_index :: "'a RawMemory \<Rightarrow> nat \<Rightarrow> 'a option" where
  "RawMemory_index m index =
     (if index < capacity_m m \<and> index < length (buffer_m m) then buffer_m m ! index else None)"

section \<open>Vector\<close>

record 'a Vector =
  data_m :: "'a RawMemory"
  size_m :: nat

definition Capacity :: "'a Vector \<Rightarrow> nat" where
  "Capacity v = capacity_m (data_m v)"

definition Size :: "'a Vector \<Rightarrow> nat" where
  "Size v = size_m v"

text \<open>The block that \<^verbatim>\<open>data_.GetAddress()\<close> points to, and the vector with that block replaced.\<close>

definition GetAddress :: "'a Vector \<Rightarrow> 'a block" where
  "GetAddress v = buffer_m (data_m v)"

definition with_block :: "'a Vector \<Rightarrow> 'a block \<Rightarrow> 'a Vector" where
  "with_block v b = v\<lparr>data_m := (data_m v)\<lparr>buffer_m := b\<rparr>\<rparr>"

text \<open>
  Iterators are pointers into the block, so offsets: \<^verbatim>\<open>begin()\<close> is 0 and \<^verbatim>\<open>end()\<close> is
  \<^verbatim>\<open>data_ + size_\<close>.
\<close>

definition begin_it :: "'a Vector \<Rightarrow> nat" where
  "begin_it v = 0"

definition end_it :: "'a Vector \<Rightarrow> nat option" where
  "end_it v = RawMemory_plus (data_m v) (size_m v)"

text \<open>\<^verbatim>\<open>operator[]\<close> with its \<^verbatim>\<open>assert(index < size_)\<close>.\<close>

definition Vector_index :: "'a Vector \<Rightarrow> nat \<Rightarrow> 'a option" where
  "Vector_index v index = (if index < size_m v then RawMemory_index (data_m v) index else None)"

subsection \<open>Construction, assignment, swap\<close>

definition Vector_default :: "'a Vector" where
  "Vector_default = \<lparr>data_m = RawMemory_default, size_m = 0\<rparr>"

text \<open>
  \<^verbatim>\<open>Vector(std::size_t size)\<close> and \<^verbatim>\<open>Vector(const Vector& other)\<close>. When the allocation
  or an element constructor throws there is no vector at all, so the state left behind is
  \<open>()\<close>.
\<close>

definition Vector_sized :: "'a element_type \<Rightarrow> nat \<Rightarrow> ('a Vector, unit) outcome" where
  "Vector_sized E n =
     (case RawMemory_sized E n of
        None \<Rightarrow> Throws ()
      | Some data \<Rightarrow>
          (case uninitialized_value_construct_n E (buffer_m data) 0 n of
             Normal _ b \<Rightarrow> Normal \<lparr>data_m = data\<lparr>buffer_m := b\<rparr>, size_m = n\<rparr> ()
           | Throws _ \<Rightarrow> Throws ()
           | Terminated \<Rightarrow> Terminated
           | Undefined \<Rightarrow> Undefined))"

definition Vector_copy :: "'a element_type \<Rightarrow> 'a Vector \<Rightarrow> ('a Vector, unit) outcome" where
  "Vector_copy E other =
     (case RawMemory_sized E (size_m other) of
        None \<Rightarrow> Throws ()
      | Some data \<Rightarrow>
          (case uninitialized_copy_n E (GetAddress other) 0 (size_m other) (buffer_m data) 0 of
             Normal _ b \<Rightarrow> Normal \<lparr>data_m = data\<lparr>buffer_m := b\<rparr>, size_m = size_m other\<rparr> ()
           | Throws _ \<Rightarrow> Throws ()
           | Terminated \<Rightarrow> Terminated
           | Undefined \<Rightarrow> Undefined))"

text \<open>\<^verbatim>\<open>Swap\<close>: the two vectors afterwards, \<open>this\<close> first.\<close>

definition Swap :: "'a Vector \<Rightarrow> 'a Vector \<Rightarrow> 'a Vector \<times> 'a Vector" where
  "Swap this other =
     (let (d, d') = RawMemory_Swap (data_m this) (data_m other)
      in (\<lparr>data_m = d, size_m = size_m other\<rparr>, \<lparr>data_m = d', size_m = size_m this\<rparr>))"

text \<open>
  \<^verbatim>\<open>~Vector()\<close>: \<^verbatim>\<open>std::destroy_n(data_.GetAddress(), size_)\<close>, then the block is freed.
  Nothing of the vector remains; the outcome says whether the destruction was defined.
\<close>

definition Vector_destroy :: "'a Vector \<Rightarrow> (unit, unit) outcome" where
  "Vector_destroy v =
     (case destroy_n (GetAddress v) 0 (size_m v) of
        Normal _ _ \<Rightarrow> Normal () ()
      | Throws _ \<Rightarrow> Throws ()
      | Terminated \<Rightarrow> Terminated
      | Undefined \<Rightarrow> Undefined)"

text \<open>
  \<^verbatim>\<open>operator=(const Vector& other)\<close> for two different objects; the state is \<open>this\<close>, since
  \<open>other\<close> is \<^verbatim>\<open>const\<close>.
\<close>

definition copy_assignment :: "'a element_type \<Rightarrow> 'a Vector \<Rightarrow> 'a Vector \<Rightarrow> (unit, 'a Vector) outcome" where
  "copy_assignment E this other =
     (if Capacity this < size_m other then
        (case Vector_copy E other of
           Normal temp _ \<Rightarrow>
             (let (this', temp') = Swap this temp in
              case Vector_destroy temp' of
                Normal _ _ \<Rightarrow> Normal () this'
              | Throws _ \<Rightarrow> Throws this'
              | Terminated \<Rightarrow> Terminated
              | Undefined \<Rightarrow> Undefined)
         | Throws _ \<Rightarrow> Throws this
         | Terminated \<Rightarrow> Terminated
         | Undefined \<Rightarrow> Undefined)
      else
        (case ranges_copy E (GetAddress other) 0 (min (size_m this) (size_m other)) (GetAddress this) 0 of
           Normal _ b \<Rightarrow>
             (if size_m this > size_m other then
                (case RawMemory_plus (data_m this) (size_m other) of
                   None \<Rightarrow> Undefined
                 | Some p \<Rightarrow>
                     (case destroy_n b p (size_m this - size_m other) of
                        Normal _ b' \<Rightarrow> Normal () ((with_block this b')\<lparr>size_m := size_m other\<rparr>)
                      | Throws b' \<Rightarrow> Throws (with_block this b')
                      | Terminated \<Rightarrow> Terminated
                      | Undefined \<Rightarrow> Undefined))
              else
                (case (RawMemory_plus (data_m other) (size_m this), RawMemory_plus (data_m this) (size_m this)) of
                   (Some p, Some q) \<Rightarrow>
                     (case uninitialized_copy_n E (GetAddress other) p (size_m other - size_m this) b q of
                        Normal _ b' \<Rightarrow> Normal () ((with_block this b')\<lparr>size_m := size_m other\<rparr>)
                      | Throws b' \<Rightarrow> Throws (with_block this b')
                      | Terminated \<Rightarrow> Terminated
                      | Undefined \<Rightarrow> Undefined)
                 | _ \<Rightarrow> Undefined))
         | Throws b \<Rightarrow> Throws (with_block this b)
         | Terminated \<Rightarrow> Terminated
         | Undefined \<Rightarrow> Undefined))"

text \<open>\<^verbatim>\<open>Vector(Vector&& other)\<close>: the new vector and what is left of \<open>other\<close>.\<close>

definition Vector_move :: "'a Vector \<Rightarrow> 'a Vector \<times> 'a Vector" where
  "Vector_move other =
     (let (d, d') = RawMemory_move (data_m other)
      in (\<lparr>data_m = d, size_m = size_m other\<rparr>, \<lparr>data_m = d', size_m = 0\<rparr>))"

text \<open>
  \<^verbatim>\<open>operator=(Vector&& other)\<close> for two different objects: the two statements of the body,
  in their order. It returns both vectors afterwards, \<open>this\<close> first.
\<close>

definition move_assignment :: "'a Vector \<Rightarrow> 'a Vector \<Rightarrow> 'a Vector \<times> 'a Vector" where
  "move_assignment this other =
     (let other1 = other\<lparr>size_m := 0\<rparr>;
          (d, d') = RawMemory_move_assign (data_m this) (data_m other1)
      in (this\<lparr>data_m := d\<rparr>, other1\<lparr>data_m := d'\<rparr>))"

subsection \<open>Reserve and Resize\<close>

text \<open>
  The test of \<^verbatim>\<open>if constexpr\<close> that chooses between moving and copying the elements into
  a new block.
\<close>

definition transfers_by_move :: "'a element_type \<Rightarrow> bool" where
  "transfers_by_move E \<longleftrightarrow> is_nothrow_move_constructible E \<or> \<not> is_copy_constructible E"

text \<open>
  The transfer of \<open>n\<close> elements from offset \<open>first\<close> of the vector's block to offset
  \<open>result\<close> of the new block \<open>nb\<close>: the two branches of \<^verbatim>\<open>if constexpr\<close>, one call of
  \<^verbatim>\<open>uninitialized_move_n\<close> or of \<^verbatim>\<open>uninitialized_copy_n\<close>. The state is the pair of the
  old block and the new one.
\<close>

definition transfer_n ::
  "'a element_type \<Rightarrow> 'a block \<Rightarrow> nat \<Rightarrow> nat \<Rightarrow> 'a block \<Rightarrow> nat \<Rightarrow> (unit, 'a block \<times> 'a block) outcome" where
  "transfer_n E ob first n nb result =
     (if transfers_by_move E then uninitialized_move_n E ob first n nb result
      else
        (case uninitialized_copy_n E ob first n nb result of
           Normal _ nb' \<Rightarrow> Normal () (ob, nb')
         | Throws nb' \<Rightarrow> Throws (ob, nb')
         | Terminated \<Rightarrow> Terminated
         | Undefined \<Rightarrow> Undefined))"

text \<open>
  The common end of the three reallocating paths:
  \<^verbatim>\<open>std::destroy_n(data_.GetAddress(), size_); data_.Swap(new_data);\<close> and the destructor
  of \<^verbatim>\<open>new_data\<close>, which frees the old block. \<open>ob\<close> is the old block after the transfer,
  \<open>nd\<close> the new \<^verbatim>\<open>RawMemory\<close>.
\<close>

definition destroy_and_swap :: "'a Vector \<Rightarrow> 'a block \<Rightarrow> 'a RawMemory \<Rightarrow> (unit, 'a Vector) outcome" where
  "destroy_and_swap v ob nd =
     (case destroy_n ob 0 (size_m v) of
        Normal _ ob' \<Rightarrow>
          (let (d, nd') = RawMemory_Swap ((data_m v)\<lparr>buffer_m := ob'\<rparr>) nd
           in Normal () (v\<lparr>data_m := d\<rparr>))
      | Throws ob' \<Rightarrow> Throws (with_block v ob')
      | Terminated \<Rightarrow> Terminated
      | Undefined \<Rightarrow> Undefined)"

definition Reserve :: "'a element_type \<Rightarrow> 'a Vector \<Rightarrow> nat \<Rightarrow> (unit, 'a Vector) outcome" where
  "Reserve E v capacity =
     (if capacity \<le> capacity_m (data_m v) then Normal () v
      else
        (case RawMemory_sized E capacity of
           None \<Rightarrow> Throws v
         | Some new_data \<Rightarrow>
             (case transfer_n E (GetAddress v) 0 (size_m v) (buffer_m new_data) 0 of
                Normal _ (ob, nb) \<Rightarrow> destroy_and_swap v ob (new_data\<lparr>buffer_m := nb\<rparr>)
              | Throws (ob, nb) \<Rightarrow> Throws (with_block v ob)
              | Terminated \<Rightarrow> Terminated
              | Undefined \<Rightarrow> Undefined)))"

definition Resize :: "'a element_type \<Rightarrow> 'a Vector \<Rightarrow> nat \<Rightarrow> (unit, 'a Vector) outcome" where
  "Resize E v new_size =
     (if new_size \<le> capacity_m (data_m v) then
        (if new_size < size_m v then
           (case RawMemory_plus (data_m v) new_size of
              None \<Rightarrow> Undefined
            | Some p \<Rightarrow>
                (case destroy_n (GetAddress v) p (size_m v - new_size) of
                   Normal _ b \<Rightarrow> Normal () ((with_block v b)\<lparr>size_m := new_size\<rparr>)
                 | Throws b \<Rightarrow> Throws (with_block v b)
                 | Terminated \<Rightarrow> Terminated
                 | Undefined \<Rightarrow> Undefined))
         else
           (case RawMemory_plus (data_m v) (size_m v) of
              None \<Rightarrow> Undefined
            | Some p \<Rightarrow>
                (case uninitialized_value_construct_n E (GetAddress v) p (new_size - size_m v) of
                   Normal _ b \<Rightarrow> Normal () ((with_block v b)\<lparr>size_m := new_size\<rparr>)
                 | Throws b \<Rightarrow> Throws (with_block v b)
                 | Terminated \<Rightarrow> Terminated
                 | Undefined \<Rightarrow> Undefined)))
      else
        (case RawMemory_sized E new_size of
           None \<Rightarrow> Throws v
         | Some new_data \<Rightarrow>
             (case transfer_n E (GetAddress v) 0 (size_m v) (buffer_m new_data) 0 of
                Normal _ (ob, nb) \<Rightarrow>
                  (case RawMemory_plus new_data (size_m v) of
                     None \<Rightarrow> Undefined
                   | Some p \<Rightarrow>
                       (case uninitialized_value_construct_n E nb p (new_size - size_m v) of
                          Normal _ nb' \<Rightarrow>
                            (case destroy_and_swap v ob (new_data\<lparr>buffer_m := nb'\<rparr>) of
                               Normal _ v' \<Rightarrow> Normal () (v'\<lparr>size_m := new_size\<rparr>)
                             | r \<Rightarrow> r)
                        | Throws nb' \<Rightarrow> Throws (with_block v ob)
                        | Terminated \<Rightarrow> Terminated
                        | Undefined \<Rightarrow> Undefined))
              | Throws (ob, nb) \<Rightarrow> Throws (with_block v ob)
              | Terminated \<Rightarrow> Terminated
              | Undefined \<Rightarrow> Undefined)))"

subsection \<open>Emplace\<close>

text \<open>
  The arguments \<^verbatim>\<open>args...\<close> matter only through the object that \<open>T\<close>'s constructor makes of
  them, so they are given as that constructor call's result: \<open>Some x\<close>, or \<open>None\<close> when it
  throws. In \<^verbatim>\<open>ReallocateAndEmbed\<close> the count \<^verbatim>\<open>size_ - distance\<close> is unsigned: below zero
  it wraps round to a count that runs off the block.
\<close>

definition ReallocateAndEmbed ::
  "'a element_type \<Rightarrow> 'a Vector \<Rightarrow> nat \<Rightarrow> 'a option \<Rightarrow> (unit, 'a Vector) outcome" where
  "ReallocateAndEmbed E v distance args =
     (case RawMemory_sized E (if size_m v = 0 then 1 else size_m v * 2) of
        None \<Rightarrow> Throws v
      | Some new_data \<Rightarrow>
          (case RawMemory_plus new_data distance of
             None \<Rightarrow> Undefined
           | Some p \<Rightarrow>
               if \<not> p < length (buffer_m new_data) then Undefined
               else
                 (case args of
                    None \<Rightarrow> Throws v
                  | Some x \<Rightarrow>
                      (case transfer_n E (GetAddress v) 0 distance ((buffer_m new_data)[p := Some x]) 0 of
                         Normal _ (ob, nb) \<Rightarrow>
                           (case (RawMemory_plus (data_m v) distance, RawMemory_plus new_data distance) of
                              (Some q, Some r) \<Rightarrow>
                                if size_m v < distance then Undefined
                                else
                                  (case transfer_n E ob q (size_m v - distance) nb (r + 1) of
                                     Normal _ (ob', nb') \<Rightarrow>
                                       destroy_and_swap v ob' (new_data\<lparr>buffer_m := nb'\<rparr>)
                                   | Throws (ob', nb') \<Rightarrow> Throws (with_block v ob')
                                   | Terminated \<Rightarrow> Terminated
                                   | Undefined \<Rightarrow> Undefined)
                            | _ \<Rightarrow> Undefined)
                       | Throws (ob, nb) \<Rightarrow> Throws (with_block v ob)
                       | Terminated \<Rightarrow> Terminated
                       | Undefined \<Rightarrow> Undefined))))"

definition Embed ::
  "'a element_type \<Rightarrow> 'a Vector \<Rightarrow> nat \<Rightarrow> nat \<Rightarrow> 'a option \<Rightarrow> (unit, 'a Vector) outcome" where
  "Embed E v pos distance args =
     (case end_it v of
        None \<Rightarrow> Undefined
      | Some e \<Rightarrow>
          if pos = e then
            (if \<not> e < length (GetAddress v) then Undefined
             else
               (case args of
                  None \<Rightarrow> Throws v
                | Some x \<Rightarrow> Normal () (with_block v ((GetAddress v)[e := Some x]))))
          else
            (case args of
               None \<Rightarrow> Throws v
             | Some arg \<Rightarrow>
                 if e = 0 \<or> \<not> e < length (GetAddress v) then Undefined
                 else
                   (case GetAddress v ! (e - 1) of
                      None \<Rightarrow> Undefined
                    | Some l \<Rightarrow>
                        (case move_ctor E l of
                           None \<Rightarrow> Throws v
                         | Some (y, l') \<Rightarrow>
                             if e - 1 < begin_it v + distance then Undefined
                             else
                               (case ranges_move_backward E
                                       ((GetAddress v)[e - 1 := Some l', e := Some y])
                                       (e - 1 - (begin_it v + distance)) (e - 1) e of
                                  Normal _ b \<Rightarrow>
                                    (case RawMemory_plus (data_m v) distance of
                                       None \<Rightarrow> Undefined
                                     | Some p \<Rightarrow>
                                         if \<not> p < length b then Undefined
                                         else
                                           (case b ! p of
                                              None \<Rightarrow> Undefined
                                            | Some d \<Rightarrow>
                                                (case move_assign E d arg of
                                                   None \<Rightarrow> Throws (with_block v b)
                                                 | Some (d', arg') \<Rightarrow>
                                                     Normal () (with_block v (b[p := Some d'])))))
                                | Throws b \<Rightarrow> Throws (with_block v b)
                                | Terminated \<Rightarrow> Terminated
                                | Undefined \<Rightarrow> Undefined)))))"

definition Emplace :: "'a element_type \<Rightarrow> 'a Vector \<Rightarrow> nat \<Rightarrow> 'a option \<Rightarrow> (nat, 'a Vector) outcome" where
  "Emplace E v pos args =
     (let distance = pos - begin_it v in
      case (if size_m v = capacity_m (data_m v) then ReallocateAndEmbed E v distance args
            else Embed E v pos distance args) of
        Normal _ v' \<Rightarrow>
          (let v'' = v'\<lparr>size_m := size_m v' + 1\<rparr> in
           case RawMemory_plus (data_m v'') distance of
             None \<Rightarrow> Undefined
           | Some p \<Rightarrow> Normal p v'')
      | Throws v' \<Rightarrow> Throws v'
      | Terminated \<Rightarrow> Terminated
      | Undefined \<Rightarrow> Undefined)"

text \<open>
  \<^verbatim>\<open>EmplaceBack\<close> dereferences the iterator that \<^verbatim>\<open>Emplace(cend(), ...)\<close> returns; the
  result is the offset of the element referred to.
\<close>

definition EmplaceBack :: "'a element_type \<Rightarrow> 'a Vector \<Rightarrow> 'a option \<Rightarrow> (nat, 'a Vector) outcome" where
  "EmplaceBack E v args =
     (case end_it v of
        None \<Rightarrow> Undefined
      | Some e \<Rightarrow> Emplace E v e args)"

text \<open>
  \<^verbatim>\<open>Insert(pos, const T& value)\<close> and \<^verbatim>\<open>Insert(pos, T&& value)\<close>, \<^verbatim>\<open>PushBack(const T&)\<close>
  and \<^verbatim>\<open>PushBack(T&&)\<close>: the new element is made by \<open>T\<close>'s copy or move constructor from a
  \<open>value\<close> that lives outside the vector.
\<close>

definition Insert_copy :: "'a element_type \<Rightarrow> 'a Vector \<Rightarrow> nat \<Rightarrow> 'a \<Rightarrow> (nat, 'a Vector) outcome" where
  "Insert_copy E v pos val = Emplace E v pos (copy_ctor E val)"

definition Insert_move :: "'a element_type \<Rightarrow> 'a Vector \<Rightarrow> nat \<Rightarrow> 'a \<Rightarrow> (nat, 'a Vector) outcome" where
  "Insert_move E v pos val = Emplace E v pos (map_option fst (move_ctor E val))"

definition PushBack_copy :: "'a element_type \<Rightarrow> 'a Vector \<Rightarrow> 'a \<Rightarrow> (unit, 'a Vector) outcome" where
  "PushBack_copy E v val =
     (case EmplaceBack E v (copy_ctor E val) of
        Normal _ v' \<Rightarrow> Normal () v'
      | Throws v' \<Rightarrow> Throws v'
      | Terminated \<Rightarrow> Terminated
      | Undefined \<Rightarrow> Undefined)"

definition PushBack_move :: "'a element_type \<Rightarrow> 'a Vector \<Rightarrow> 'a \<Rightarrow> (unit, 'a Vector) outcome" where
  "PushBack_move E v val =
     (case EmplaceBack E v (map_option fst (move_ctor E val)) of
        Normal _ v' \<Rightarrow> Normal () v'
      | Throws v' \<Rightarrow> Throws v'
      | Terminated \<Rightarrow> Terminated
      | Undefined \<Rightarrow> Undefined)"

subsection \<open>Erase and PopBack\<close>

text \<open>
  Both are \<^verbatim>\<open>noexcept\<close>: an exception from a move assignment ends in
  \<^verbatim>\<open>std::terminate\<close>. \<^verbatim>\<open>[data_ + distance + 1, end())\<close> must be a range, and
  \<^verbatim>\<open>--size_\<close> at zero wraps round to a pointer outside the block.
\<close>

definition Erase :: "'a element_type \<Rightarrow> 'a Vector \<Rightarrow> nat \<Rightarrow> (nat, 'a Vector) outcome" where
  "Erase E v pos =
     (let distance = pos - begin_it v in
      case (RawMemory_plus (data_m v) distance, end_it v) of
        (Some p, Some e) \<Rightarrow>
          if e < p + 1 then Undefined
          else
            (case ranges_move E (GetAddress v) (p + 1) (e - (p + 1)) p of
               Normal _ b \<Rightarrow>
                 (case destroy_at b (e - 1) of
                    Normal _ b' \<Rightarrow> Normal p ((with_block v b')\<lparr>size_m := size_m v - 1\<rparr>)
                  | Throws _ \<Rightarrow> Terminated
                  | Terminated \<Rightarrow> Terminated
                  | Undefined \<Rightarrow> Undefined)
             | Throws _ \<Rightarrow> Terminated
             | Terminated \<Rightarrow> Terminated
             | Undefined \<Rightarrow> Undefined)
      | _ \<Rightarrow> Undefined)"

definition PopBack :: "'a Vector \<Rightarrow> (unit, 'a Vector) outcome" where
  "PopBack v =
     (if size_m v = 0 then Undefined
      else
        (let v' = v\<lparr>size_m := size_m v - 1\<rparr> in
         case RawMemory_plus (data_m v') (size_m v') of
           None \<Rightarrow> Undefined
         | Some p \<Rightarrow>
             (case destroy_at (GetAddress v') p of
                Normal _ b \<Rightarrow> Normal () (with_block v' b)
              | Throws _ \<Rightarrow> Terminated
              | Terminated \<Rightarrow> Terminated
              | Undefined \<Rightarrow> Undefined)))"

section \<open>The vocabulary of the specification\<close>

text \<open>
  The invariant of the specification: the block has \<^verbatim>\<open>capacity_\<close> slots, the size does not
  exceed the capacity, the slots \<open>[0, size)\<close> hold live objects and the slots
  \<open>[size, capacity)\<close> are uninitialized.
\<close>

definition invariant :: "'a Vector \<Rightarrow> bool" where
  "invariant v \<longleftrightarrow>
     length (GetAddress v) = Capacity v \<and> Size v \<le> Capacity v \<and>
     list_all (\<lambda>s. s \<noteq> None) (take (Size v) (GetAddress v)) \<and>
     list_all (\<lambda>s. s = None) (drop (Size v) (GetAddress v))"

text \<open>What iterating over \<open>[begin(), end())\<close> yields.\<close>

definition elements :: "'a Vector \<Rightarrow> 'a list" where
  "elements v = map the (take (Size v) (GetAddress v))"

text \<open>The vector in which the elements \<open>xs\<close> live at the front of a block of \<open>cap\<close> slots.\<close>

definition vec :: "'a list \<Rightarrow> nat \<Rightarrow> 'a Vector" where
  "vec xs cap =
     \<lparr>data_m = \<lparr>buffer_m = map Some xs @ replicate (cap - length xs) None, capacity_m = cap\<rparr>,
      size_m = length xs\<rparr>"

text \<open>
  An element type with value semantics: copying and moving never throw, and the new or
  assigned object has the value of the source. What a move leaves in its source is free.
\<close>

definition regular :: "'a element_type \<Rightarrow> bool" where
  "regular E \<longleftrightarrow>
     (\<forall>x. copy_ctor E x = Some x) \<and> (\<forall>x. map_option fst (move_ctor E x) = Some x) \<and>
     (\<forall>d x. copy_assign E d x = Some x) \<and> (\<forall>d x. map_option fst (move_assign E d x) = Some x)"

text \<open>
  \<open>n\<close> objects of type \<open>T\<close> fit a byte count: \<^verbatim>\<open>n * sizeof(T)\<close> does not wrap round.
  This holds of the size and the capacity of every block that exists, and of twice as many,
  since a block has at most \<^verbatim>\<open>PTRDIFF_MAX\<close> bytes.
\<close>

definition fits :: "'a element_type \<Rightarrow> nat \<Rightarrow> bool" where
  "fits E n \<longleftrightarrow> 0 < sizeof_T E \<and> n * sizeof_T E < 2 ^ 64"

text \<open>
  The allocation of a block of \<open>n\<close> slots succeeds: the byte count does not wrap round and
  \<^verbatim>\<open>operator new\<close> returns.
\<close>

definition allocates :: "'a element_type \<Rightarrow> nat \<Rightarrow> bool" where
  "allocates E n \<longleftrightarrow> fits E n \<and> operator_new E (n * sizeof_T E)"

text \<open>A run of \<^verbatim>\<open>PushBack(const T&)\<close> calls, one for each value of the list.\<close>

fun PushBack_all :: "'a element_type \<Rightarrow> 'a Vector \<Rightarrow> 'a list \<Rightarrow> (unit, 'a Vector) outcome" where
  "PushBack_all E v [] = Normal () v"
| "PushBack_all E v (x # xs) =
     (case PushBack_copy E v x of
        Normal _ v' \<Rightarrow> PushBack_all E v' xs
      | r \<Rightarrow> r)"

subsection \<open>Concrete element types\<close>

text \<open>
  \<^verbatim>\<open>int\<close> with four bytes, on a machine where every call of \<^verbatim>\<open>operator new\<close> returns:
  nothing throws, a move leaves the source as it was.
\<close>

definition int_type :: "int element_type" where
  "int_type =
     \<lparr>is_nothrow_move_constructible = True, is_copy_constructible = True,
      value_ctor = Some 0, copy_ctor = Some, move_ctor = (\<lambda>x. Some (x, x)),
      copy_assign = (\<lambda>d x. Some x), move_assign = (\<lambda>d x. Some (x, x)),
      sizeof_T = 4, operator_new = (\<lambda>bytes. True)\<rparr>"

text \<open>
  A test type that counts: an object is an identifier with the number of copy constructions
  and the number of move constructions in its history. The two traits are parameters.
\<close>

definition counting_type :: "bool \<Rightarrow> bool \<Rightarrow> (int \<times> nat \<times> nat) element_type" where
  "counting_type nothrow_move copyable =
     \<lparr>is_nothrow_move_constructible = nothrow_move, is_copy_constructible = copyable,
      value_ctor = Some (0, 0, 0),
      copy_ctor = (\<lambda>(i, c, m). Some (i, c + 1, m)),
      move_ctor = (\<lambda>(i, c, m). Some ((i, c, m + 1), (0, c, m))),
      copy_assign = (\<lambda>d x. Some x),
      move_assign = (\<lambda>d x. Some (x, (0, fst (snd x), snd (snd x)))),
      sizeof_T = 24, operator_new = (\<lambda>bytes. True)\<rparr>"

text \<open>
  A test type that throws: an object is a number with a flag, and copying or moving an object
  whose flag is set throws.
\<close>

definition throwing_type :: "(int \<times> bool) element_type" where
  "throwing_type =
     \<lparr>is_nothrow_move_constructible = False, is_copy_constructible = True,
      value_ctor = Some (0, False),
      copy_ctor = (\<lambda>x. if snd x then None else Some x),
      move_ctor = (\<lambda>x. if snd x then None else Some (x, x)),
      copy_assign = (\<lambda>d x. Some x),
      move_assign = (\<lambda>d x. Some (x, x)),
      sizeof_T = 8, operator_new = (\<lambda>bytes. True)\<rparr>"

text \<open>
  \<^verbatim>\<open>int\<close> on a machine with little memory: \<^verbatim>\<open>operator new\<close> returns blocks of at most
  \<open>limit\<close> bytes and throws \<^verbatim>\<open>std::bad_alloc\<close> for more.
\<close>

definition int_type_limited :: "nat \<Rightarrow> int element_type" where
  "int_type_limited limit = int_type\<lparr>operator_new := (\<lambda>bytes. bytes \<le> limit)\<rparr>"

section \<open>The algorithms when nothing throws\<close>

text \<open>
  Each loop, run over a range of live objects with member functions that return, has a closed
  form: the block afterwards is the block before with the range replaced.
\<close>

lemma range_ConsD:
  assumes "take (Suc k) (drop first b) = y # ys"
  shows "first < length b \<and> b ! first = y \<and> take k (drop (Suc first) b) = ys"
proof -
  have lt: "first < length b"
    using assms by (cases "first < length b") auto
  then have "drop first b = b ! first # drop (Suc first) b"
    by (simp add: Cons_nth_drop_Suc)
  with assms lt show ?thesis by simp
qed

lemma splice_step:
  assumes "result < length dst"
  shows "take (Suc result) (dst[result := y]) @ zs @ drop (Suc result + k) (dst[result := y])
       = take result dst @ (y # zs) @ drop (result + Suc k) dst"
  using assms by (simp add: take_Suc_conv_app_nth)

lemma destroy_n_ok:
  "take (length xs) (drop first b) = map Some xs \<Longrightarrow>
   destroy_n b first (length xs) = Normal () (take first b @ replicate (length xs) None @ drop (first + length xs) b)"
proof (induction xs arbitrary: first b)
  case Nil
  then show ?case by simp
next
  case (Cons x xs)
  from range_ConsD[of "length xs" first b "Some x" "map Some xs"] Cons.prems
  have lt: "first < length b" and hd: "b ! first = Some x"
    and tl: "take (length xs) (drop (Suc first) b) = map Some xs" by auto
  have tl': "take (length xs) (drop (Suc first) (b[first := None])) = map Some xs"
    using tl by simp
  show ?case
    using lt hd Cons.IH[OF tl'] splice_step[OF lt, of None "replicate (length xs) None" "length xs"]
    by (simp add: destroy_at_def)
qed

lemma uninitialized_value_construct_n_ok:
  "value_ctor E = Some d \<Longrightarrow> first + n \<le> length b \<Longrightarrow>
   uninitialized_value_construct_n E b first n
     = Normal () (take first b @ replicate n (Some d) @ drop (first + n) b)"
proof (induction n arbitrary: first b)
  case 0
  then show ?case by simp
next
  case (Suc n)
  have lt: "first < length b" using Suc.prems by simp
  show ?case
    using Suc.prems lt Suc.IH[of "Suc first" "b[first := Some d]"]
      splice_step[OF lt, of "Some d" "replicate n (Some d)" n]
    by simp
qed

lemma uninitialized_copy_n_ok:
  "(\<And>x. x \<in> set xs \<Longrightarrow> copy_ctor E x = Some (f x)) \<Longrightarrow>
   take (length xs) (drop first src) = map Some xs \<Longrightarrow>
   result + length xs \<le> length dst \<Longrightarrow>
   uninitialized_copy_n E src first (length xs) dst result
     = Normal () (take result dst @ map (\<lambda>x. Some (f x)) xs @ drop (result + length xs) dst)"
proof (induction xs arbitrary: first dst result)
  case Nil
  then show ?case by simp
next
  case (Cons x xs)
  from range_ConsD[of "length xs" first src "Some x" "map Some xs"] Cons.prems(2)
  have lt: "first < length src" and hd: "src ! first = Some x"
    and tl: "take (length xs) (drop (Suc first) src) = map Some xs" by auto
  have lt': "result < length dst" using Cons.prems(3) by simp
  have ih: "uninitialized_copy_n E src (Suc first) (length xs) (dst[result := Some (f x)]) (Suc result)
     = Normal () (take (Suc result) (dst[result := Some (f x)]) @ map (\<lambda>x. Some (f x)) xs
           @ drop (Suc result + length xs) (dst[result := Some (f x)]))"
    using Cons.prems by (intro Cons.IH[OF _ tl]) auto
  show ?case
    using lt lt' hd Cons.prems(1)[of x] ih
      splice_step[OF lt', of "Some (f x)" "map (\<lambda>x. Some (f x)) xs" "length xs"]
    by simp
qed

lemma uninitialized_move_n_ok:
  "(\<And>x. x \<in> set xs \<Longrightarrow> move_ctor E x = Some (f x, g x)) \<Longrightarrow>
   take (length xs) (drop first src) = map Some xs \<Longrightarrow>
   result + length xs \<le> length dst \<Longrightarrow>
   uninitialized_move_n E src first (length xs) dst result
     = Normal () (take first src @ map (\<lambda>x. Some (g x)) xs @ drop (first + length xs) src,
                  take result dst @ map (\<lambda>x. Some (f x)) xs @ drop (result + length xs) dst)"
proof (induction xs arbitrary: first src dst result)
  case Nil
  then show ?case by simp
next
  case (Cons x xs)
  from range_ConsD[of "length xs" first src "Some x" "map Some xs"] Cons.prems(2)
  have lt: "first < length src" and hd: "src ! first = Some x"
    and tl: "take (length xs) (drop (Suc first) src) = map Some xs" by auto
  have tl': "take (length xs) (drop (Suc first) (src[first := Some (g x)])) = map Some xs"
    using tl by simp
  have lt': "result < length dst" using Cons.prems(3) by simp
  have ih: "uninitialized_move_n E (src[first := Some (g x)]) (Suc first) (length xs) (dst[result := Some (f x)]) (Suc result)
     = Normal () (take (Suc first) (src[first := Some (g x)]) @ map (\<lambda>x. Some (g x)) xs
           @ drop (Suc first + length xs) (src[first := Some (g x)]),
         take (Suc result) (dst[result := Some (f x)]) @ map (\<lambda>x. Some (f x)) xs
           @ drop (Suc result + length xs) (dst[result := Some (f x)]))"
    using Cons.prems by (intro Cons.IH[OF _ tl']) auto
  show ?case
    using lt lt' hd Cons.prems(1)[of x] ih
      splice_step[OF lt', of "Some (f x)" "map (\<lambda>x. Some (f x)) xs" "length xs"]
      splice_step[OF lt, of "Some (g x)" "map (\<lambda>x. Some (g x)) xs" "length xs"]
    by simp
qed

lemma ranges_copy_ok:
  "(\<And>d x. x \<in> set xs \<Longrightarrow> copy_assign E d x = Some x) \<Longrightarrow>
   take (length xs) (drop first src) = map Some xs \<Longrightarrow>
   take (length xs) (drop result dst) = map Some ds \<Longrightarrow>
   length ds = length xs \<Longrightarrow>
   ranges_copy E src first (length xs) dst result
     = Normal () (take result dst @ map Some xs @ drop (result + length xs) dst)"
proof (induction xs arbitrary: first dst result ds)
  case Nil
  then show ?case by simp
next
  case (Cons x xs)
  from range_ConsD[of "length xs" first src "Some x" "map Some xs"] Cons.prems(2)
  have lt: "first < length src" and hd: "src ! first = Some x"
    and tl: "take (length xs) (drop (Suc first) src) = map Some xs" by auto
  obtain d ds' where ds: "ds = d # ds'" using Cons.prems(4) by (cases ds) auto
  from range_ConsD[of "length xs" result dst "Some d" "map Some ds'"] Cons.prems(3) ds
  have lt': "result < length dst" and hd': "dst ! result = Some d"
    and tl': "take (length xs) (drop (Suc result) dst) = map Some ds'" by auto
  have tl'': "take (length xs) (drop (Suc result) (dst[result := Some x])) = map Some ds'"
    using tl' by simp
  have ih: "ranges_copy E src (Suc first) (length xs) (dst[result := Some x]) (Suc result)
     = Normal () (take (Suc result) (dst[result := Some x]) @ map Some xs
           @ drop (Suc result + length xs) (dst[result := Some x]))"
    using Cons.prems ds by (intro Cons.IH[OF _ tl tl'']) auto
  show ?case
    using lt lt' hd hd' Cons.prems(1)[of x d] ih
      splice_step[OF lt', of "Some x" "map Some xs" "length xs"]
    by simp
qed

text \<open>Shifting one slot to the left: the front-to-back move of \<open>Erase\<close>.\<close>

lemma ranges_move_shift_left:
  "(\<And>d x. x \<in> set ys \<Longrightarrow> map_option fst (move_assign E d x) = Some x) \<Longrightarrow>
   \<exists>z. ranges_move E (pre @ Some d # map Some ys @ rest) (Suc (length pre)) (length ys) (length pre)
     = Normal () (pre @ map Some ys @ Some z # rest)"
proof (induction ys arbitrary: pre d)
  case Nil
  then show ?case by simp
next
  case (Cons y ys)
  from Cons.prems[of y d] obtain y' where mv: "move_assign E d y = Some (y, y')"
    by (cases "move_assign E d y") auto
  have upd: "(pre @ Some d # Some y # map Some ys @ rest)[Suc (length pre) := Some y', length pre := Some y]
     = (pre @ [Some y]) @ Some y' # map Some ys @ rest"
    by (simp add: list_update_append)
  from Cons.IH[of "pre @ [Some y]" y'] Cons.prems
  obtain z where "ranges_move E ((pre @ [Some y]) @ Some y' # map Some ys @ rest)
      (Suc (length (pre @ [Some y]))) (length ys) (length (pre @ [Some y]))
     = Normal () ((pre @ [Some y]) @ map Some ys @ Some z # rest)" by auto
  then show ?case
    using mv upd by (auto simp: nth_append)
qed

text \<open>Shifting one slot to the right: the back-to-front move of \<open>Embed\<close>.\<close>

lemma ranges_move_backward_shift_right:
  "(\<And>d x. x \<in> set ys \<Longrightarrow> map_option fst (move_assign E d x) = Some x) \<Longrightarrow>
   \<exists>z. ranges_move_backward E (pre @ map Some ys @ Some d # rest) (length ys)
          (length pre + length ys) (Suc (length pre + length ys))
     = Normal () (pre @ Some z # map Some ys @ rest)"
proof (induction ys arbitrary: d rest rule: rev_induct)
  case Nil
  then show ?case by simp
next
  case (snoc y ys)
  from snoc.prems[of y d] obtain y' where mv: "move_assign E d y = Some (y, y')"
    by (cases "move_assign E d y") auto
  have upd: "(pre @ map Some (ys @ [y]) @ Some d # rest)[length pre + length ys := Some y', Suc (length pre + length ys) := Some y]
     = pre @ map Some ys @ Some y' # (Some y # rest)"
    by (simp add: list_update_append)
  have rd: "(pre @ map Some (ys @ [y]) @ Some d # rest) ! (length pre + length ys) = Some y"
      "(pre @ map Some (ys @ [y]) @ Some d # rest) ! Suc (length pre + length ys) = Some d"
    by (simp_all add: nth_append)
  from snoc.IH[of y' "Some y # rest"] snoc.prems
  obtain z where "ranges_move_backward E (pre @ map Some ys @ Some y' # (Some y # rest)) (length ys)
          (length pre + length ys) (Suc (length pre + length ys))
     = Normal () (pre @ Some z # map Some ys @ (Some y # rest))" by auto
  then show ?case
    using mv upd rd by auto
qed

subsection \<open>Vectors that satisfy the invariant\<close>

lemma Capacity_vec [simp]: "Capacity (vec xs cap) = cap"
  by (simp add: Capacity_def vec_def)

lemma Size_vec [simp]: "Size (vec xs cap) = length xs"
  by (simp add: Size_def vec_def)

lemma size_m_vec [simp]: "size_m (vec xs cap) = length xs"
  by (simp add: vec_def)

lemma capacity_m_vec [simp]: "capacity_m (data_m (vec xs cap)) = cap"
  by (simp add: vec_def)

lemma GetAddress_vec [simp]:
  "GetAddress (vec xs cap) = map Some xs @ replicate (cap - length xs) None"
  by (simp add: GetAddress_def vec_def)

lemma elements_vec [simp]: "elements (vec xs cap) = xs"
  by (simp add: elements_def comp_def)

lemma invariant_vec: "length xs \<le> cap \<Longrightarrow> invariant (vec xs cap)"
  by (simp add: invariant_def list_all_iff)

lemma all_live_eq: "list_all (\<lambda>s. s \<noteq> None) ys \<Longrightarrow> map Some (map the ys) = ys"
  by (induction ys) auto

lemma all_raw_eq: "list_all (\<lambda>s. s = None) zs \<Longrightarrow> zs = replicate (length zs) None"
  by (induction zs) auto

lemma invariant_is_vec:
  assumes "invariant v"
  shows "v = vec (elements v) (Capacity v)"
proof -
  let ?b = "GetAddress v"
  have len: "length ?b = Capacity v" and le: "Size v \<le> Capacity v"
    and live: "list_all (\<lambda>s. s \<noteq> None) (take (Size v) ?b)"
    and raw: "list_all (\<lambda>s. s = None) (drop (Size v) ?b)"
    using assms by (simp_all add: invariant_def)
  have "?b = take (Size v) ?b @ drop (Size v) ?b" by simp
  also have "\<dots> = map Some (elements v) @ replicate (Capacity v - Size v) None"
    using all_live_eq[OF live] all_raw_eq[OF raw] len by (simp add: elements_def)
  finally have b: "?b = map Some (elements v) @ replicate (Capacity v - Size v) None" .
  have n: "length (elements v) = Size v"
    using le len by (simp add: elements_def)
  show ?thesis
    using b n by (cases v; cases "data_m v") (simp add: vec_def GetAddress_def Capacity_def Size_def)
qed

lemma with_block_vec:
  "length ys = length xs \<Longrightarrow>
   (with_block (vec xs cap) (map Some ys @ replicate (cap - length ys) None)) = vec ys cap"
  by (simp add: with_block_def vec_def)

subsection \<open>Reallocation\<close>

lemma Allocate_fits:
  assumes "fits E n"
  shows "Allocate E n = (if n = 0 \<or> operator_new E (n * sizeof_T E) then Some (replicate n None) else None)"
  using assms by (simp add: Allocate_def fits_def Let_def)

lemma RawMemory_sized_fits:
  assumes "fits E n"
  shows "RawMemory_sized E n = None \<or>
         RawMemory_sized E n = Some \<lparr>buffer_m = replicate n None, capacity_m = n\<rparr>"
  using Allocate_fits[OF assms] by (simp add: RawMemory_sized_def)

lemma RawMemory_sized_allocates:
  assumes "allocates E n"
  shows "RawMemory_sized E n = Some \<lparr>buffer_m = replicate n None, capacity_m = n\<rparr>"
  using assms Allocate_fits[of E n] by (simp add: RawMemory_sized_def allocates_def)

lemma RawMemory_sized_capacity:
  assumes "RawMemory_sized E n = Some nd"
  shows "capacity_m nd = n"
  using assms by (auto simp: RawMemory_sized_def split: option.splits)

lemma transfer_n_ok:
  assumes cp: "\<And>x. copy_ctor E x = Some (cp x)"
    and mv: "\<And>x. map_option fst (move_ctor E x) = Some (mv x)"
    and src: "take (length xs) (drop first ob) = map Some xs"
    and dst: "result + length xs \<le> length nb"
  shows "\<exists>zs. length zs = length xs \<and>
     transfer_n E ob first (length xs) nb result
       = Normal () (take first ob @ map Some zs @ drop (first + length xs) ob,
           take result nb @ map Some (map (if transfers_by_move E then mv else cp) xs)
             @ drop (result + length xs) nb)"
proof (cases "transfers_by_move E")
  case True
  have m: "\<And>x. move_ctor E x = Some (mv x, snd (the (move_ctor E x)))"
    using mv by (metis (no_types, lifting) map_option_eq_Some option.sel prod.collapse)
  from uninitialized_move_n_ok[of xs E mv "\<lambda>x. snd (the (move_ctor E x))", OF m src dst]
  show ?thesis
    using True by (intro exI[of _ "map (\<lambda>x. snd (the (move_ctor E x))) xs"]) (simp add: transfer_n_def comp_def)
next
  case False
  have same: "take first ob @ map Some xs @ drop (first + length xs) ob = ob"
    using src by (metis append_take_drop_id drop_drop add.commute)
  from uninitialized_copy_n_ok[of xs E cp, OF cp src dst]
  show ?thesis
    using False same by (intro exI[of _ xs]) (simp add: transfer_n_def comp_def)
qed

lemma destroy_and_swap_ok:
  assumes "take (size_m v) ob = map Some zs" and "length zs = size_m v"
  shows "destroy_and_swap v ob nd = Normal () (v\<lparr>data_m := nd\<rparr>)"
proof -
  have "destroy_n ob 0 (length zs) = Normal () (take 0 ob @ replicate (length zs) None @ drop (0 + length zs) ob)"
    using assms by (intro destroy_n_ok) simp
  then show ?thesis
    using assms by (cases nd) (simp add: destroy_and_swap_def RawMemory_Swap_def)
qed

lemma Reserve_vec:
  assumes cp: "\<And>x. copy_ctor E x = Some (cp x)"
    and mv: "\<And>x. map_option fst (move_ctor E x) = Some (mv x)"
    and le: "length xs \<le> cap" and gt: "cap < n" and al: "allocates E n"
  shows "Reserve E (vec xs cap) n = Normal () (vec (map (if transfers_by_move E then mv else cp) xs) n)"
proof -
  let ?ob = "map Some xs @ replicate (cap - length xs) None"
  from transfer_n_ok[of E cp mv xs 0 ?ob 0 "replicate n None", OF cp mv] le gt
  obtain zs where zs: "length zs = length xs"
    and tr: "transfer_n E ?ob 0 (length xs) (replicate n None) 0
       = Normal () (map Some zs @ drop (length xs) ?ob,
            map Some (map (if transfers_by_move E then mv else cp) xs) @ replicate (n - length xs) None)"
    by auto
  have ds: "destroy_and_swap (vec xs cap) (map Some zs @ drop (length xs) ?ob) nd
       = Normal () ((vec xs cap)\<lparr>data_m := nd\<rparr>)" for nd
    using zs by (intro destroy_and_swap_ok[of _ _ zs]) simp_all
  show ?thesis
    using gt tr ds by (simp add: Reserve_def RawMemory_sized_allocates[OF al]) (simp add: vec_def)
qed

lemma vec_eqI:
  "b = map Some ys @ replicate (cap - length ys) None \<Longrightarrow> n = length ys \<Longrightarrow>
   \<lparr>data_m = \<lparr>buffer_m = b, capacity_m = cap\<rparr>, size_m = n\<rparr> = vec ys cap"
  by (simp add: vec_def)

lemma with_block_size_vec:
  "b = map Some ys @ replicate (cap - length ys) None \<Longrightarrow> n = length ys \<Longrightarrow>
   (with_block (vec xs cap) b)\<lparr>size_m := n\<rparr> = vec ys cap"
  by (simp add: vec_def with_block_def)

lemma Resize_shrink_vec:
  assumes "n < length xs" and "length xs \<le> cap"
  shows "Resize E (vec xs cap) n = Normal () (vec (take n xs) cap)"
proof -
  let ?b = "map Some xs @ replicate (cap - length xs) None"
  have "take (length (drop n xs)) (drop n ?b) = map Some (drop n xs)"
    using assms by (simp add: drop_map)
  from destroy_n_ok[OF this]
  have d: "destroy_n ?b n (length xs - n)
     = Normal () (map Some (take n xs) @ replicate (cap - n) None)"
    using assms by (simp add: take_map replicate_add[symmetric])
  show ?thesis
    using assms d by (simp add: Resize_def RawMemory_plus_def with_block_size_vec)
qed

lemma Resize_room_vec:
  assumes "value_ctor E = Some d" and "length xs \<le> n" and "n \<le> cap"
  shows "Resize E (vec xs cap) n = Normal () (vec (xs @ replicate (n - length xs) d) cap)"
proof -
  let ?b = "map Some xs @ replicate (cap - length xs) None"
  from uninitialized_value_construct_n_ok[OF assms(1), of "length xs" "n - length xs" ?b]
  have c: "uninitialized_value_construct_n E ?b (length xs) (n - length xs)
     = Normal () (map Some (xs @ replicate (n - length xs) d) @ replicate (cap - n) None)"
    using assms by (simp add: map_replicate)
  show ?thesis
    using assms c by (simp add: Resize_def RawMemory_plus_def with_block_size_vec)
qed

lemma Resize_grow_vec:
  assumes cp: "\<And>x. copy_ctor E x = Some (cp x)"
    and mv: "\<And>x. map_option fst (move_ctor E x) = Some (mv x)"
    and d: "value_ctor E = Some d"
    and le: "length xs \<le> cap" and gt: "cap < n" and al: "allocates E n"
  shows "Resize E (vec xs cap) n
     = Normal () (vec (map (if transfers_by_move E then mv else cp) xs @ replicate (n - length xs) d) n)"
proof -
  let ?ob = "map Some xs @ replicate (cap - length xs) None"
  let ?t = "if transfers_by_move E then mv else cp"
  from transfer_n_ok[of E cp mv xs 0 ?ob 0 "replicate n None", OF cp mv] le gt
  obtain zs where zs: "length zs = length xs"
    and tr: "transfer_n E ?ob 0 (length xs) (replicate n None) 0
       = Normal () (map Some zs @ drop (length xs) ?ob,
            map Some (map ?t xs) @ replicate (n - length xs) None)"
    by auto
  from uninitialized_value_construct_n_ok[OF d, of "length xs" "n - length xs"
      "map Some (map ?t xs) @ replicate (n - length xs) None"]
  have c: "uninitialized_value_construct_n E (map Some (map ?t xs) @ replicate (n - length xs) None)
       (length xs) (n - length xs)
     = Normal () (map Some (map ?t xs @ replicate (n - length xs) d))"
    using le gt by (simp add: map_replicate)
  have ds: "destroy_and_swap (vec xs cap) (map Some zs @ drop (length xs) ?ob) nd
       = Normal () ((vec xs cap)\<lparr>data_m := nd\<rparr>)" for nd
    using zs by (intro destroy_and_swap_ok[of _ _ zs]) simp_all
  show ?thesis
    using le gt tr c ds
    by (simp add: Resize_def RawMemory_sized_allocates[OF al] RawMemory_plus_def) (simp add: vec_def)
qed

lemma Erase_vec:
  assumes mv: "\<And>d x. map_option fst (move_assign E d x) = Some x"
    and i: "i < length xs" and le: "length xs \<le> cap"
  shows "Erase E (vec xs cap) i = Normal i (vec (take i xs @ drop (Suc i) xs) cap)"
proof -
  let ?pad = "replicate (cap - length xs) None"
  let ?pre = "take i xs" and ?ys = "drop (Suc i) xs"
  have xs: "xs = ?pre @ xs ! i # ?ys"
    using i by (simp add: id_take_nth_drop)
  have b: "map Some xs @ ?pad = map Some ?pre @ Some (xs ! i) # map Some ?ys @ ?pad"
    by (subst xs) simp
  from ranges_move_shift_left[of ?ys E "map Some ?pre" "xs ! i" ?pad] mv
  obtain z where mvd: "ranges_move E (map Some ?pre @ Some (xs ! i) # map Some ?ys @ ?pad)
       (Suc (length (map Some ?pre))) (length ?ys) (length (map Some ?pre))
     = Normal () (map Some ?pre @ map Some ?ys @ Some z # ?pad)" by auto
  have mvd': "ranges_move E (map Some xs @ ?pad) (Suc i) (length xs - Suc i) i
     = Normal () (map Some ?pre @ map Some ?ys @ Some z # ?pad)"
    using mvd i b by (simp add: min_absorb2)
  have idx: "length xs - 1 = length (map Some ?pre @ map Some ?ys)"
    using i by (simp add: min_absorb2)
  have last: "(map Some ?pre @ map Some ?ys @ Some z # ?pad) ! (length xs - 1) = Some z"
    unfolding idx by (metis append.assoc nth_append_length)
  have upd: "(map Some ?pre @ map Some ?ys @ Some z # ?pad)[length xs - 1 := None]
     = map Some (?pre @ ?ys) @ replicate (cap - length (?pre @ ?ys)) None"
  proof -
    from idx have "(map Some ?pre @ map Some ?ys @ Some z # ?pad)[length xs - 1 := None]
       = (map Some ?pre @ map Some ?ys) @ None # ?pad"
      by (metis append.assoc list_update_length)
    also have "None # ?pad = replicate (cap - length (?pre @ ?ys)) None"
      using i le by (simp add: min_absorb2 replicate_Suc[symmetric] Suc_diff_le del: replicate_Suc)
    finally show ?thesis by simp
  qed
  have d: "destroy_at (map Some ?pre @ map Some ?ys @ Some z # ?pad) (length xs - 1)
     = Normal () (map Some (?pre @ ?ys) @ replicate (cap - length (?pre @ ?ys)) None)"
    using last upd i le by (simp add: destroy_at_def min_absorb2)
  show ?thesis
    using i le mvd' d
    by (simp add: Erase_def begin_it_def end_it_def RawMemory_plus_def with_block_size_vec min_absorb2)
qed

lemma PopBack_vec:
  assumes "length xs < cap"
  shows "PopBack (vec (xs @ [x]) cap) = Normal () (vec xs cap)"
proof -
  have "(map Some xs @ Some x # replicate (cap - Suc (length xs)) None)[length xs := None]
     = map Some xs @ replicate (cap - length xs) None"
    using assms by (simp add: list_update_append replicate_Suc[symmetric] Suc_diff_Suc del: replicate_Suc)
  then show ?thesis
    using assms
    by (simp add: PopBack_def RawMemory_plus_def destroy_at_def GetAddress_def vec_def with_block_def
        nth_append)
qed

lemma ReallocateAndEmbed_vec:
  assumes cp: "\<And>x. copy_ctor E x = Some (cp x)"
    and mv: "\<And>x. map_option fst (move_ctor E x) = Some (mv x)"
    and i: "i \<le> length xs"
    and al: "allocates E (if length xs = 0 then 1 else length xs * 2)"
  shows "ReallocateAndEmbed E (vec xs (length xs)) i (Some x)
     = Normal () ((vec (map (if transfers_by_move E then mv else cp) (take i xs) @ x #
                         map (if transfers_by_move E then mv else cp) (drop i xs))
                     (if length xs = 0 then 1 else length xs * 2))\<lparr>size_m := length xs\<rparr>)"
proof -
  define t where "t = (if transfers_by_move E then mv else cp)"
  define m where "m = (if length xs = 0 then 1 else length xs * 2)"
  let ?v = "vec xs (length xs)"
  let ?ob = "map Some xs"
  let ?nb0 = "(replicate m None)[i := Some x]"
  have m: "length xs < m" by (simp add: m_def)
  have im: "i < m" using i m by linarith
  have nd: "RawMemory_sized E (if size_m ?v = 0 then 1 else size_m ?v * 2)
     = Some \<lparr>buffer_m = replicate m None, capacity_m = m\<rparr>"
    using RawMemory_sized_allocates[OF al] by (auto simp: m_def)
  have nb0: "?nb0 = replicate i None @ Some x # replicate (m - Suc i) None"
  proof -
    have "m = i + Suc (m - Suc i)" using im by simp
    then have "replicate m None = replicate i None @ (None :: 'a option) # replicate (m - Suc i) None"
      by (metis replicate_Suc replicate_add)
    then show ?thesis
      by (metis length_replicate list_update_length)
  qed
  have src1: "take (length (take i xs)) (drop 0 ?ob) = map Some (take i xs)"
    using i by (simp add: take_map min_absorb2)
  from transfer_n_ok[of E cp mv "take i xs" 0 ?ob 0 ?nb0, OF cp mv src1] i im
  obtain zs1 where zs1: "length zs1 = i"
    and tr1: "transfer_n E ?ob 0 i ?nb0 0
       = Normal () (map Some zs1 @ drop i ?ob, map Some (map t (take i xs)) @ drop i ?nb0)"
    by (auto simp: min_absorb2 t_def)
  let ?ob1 = "map Some zs1 @ drop i ?ob"
  let ?nb1 = "map Some (map t (take i xs)) @ Some x # replicate (m - Suc i) None"
  have nb1: "map Some (map t (take i xs)) @ drop i ?nb0 = ?nb1"
    by (simp add: nb0)
  have src2: "take (length (drop i xs)) (drop i ?ob1) = map Some (drop i xs)"
    using zs1 by (simp add: drop_map)
  have dst2: "Suc i + length (drop i xs) \<le> length ?nb1"
    using i m by (auto simp: min_absorb2)
  from transfer_n_ok[of E cp mv "drop i xs" i ?ob1 "Suc i" ?nb1, OF cp mv src2 dst2]
  obtain zs2 where zs2: "length zs2 = length xs - i"
    and tr2: "transfer_n E ?ob1 i (length xs - i) ?nb1 (Suc i)
       = Normal () (take i ?ob1 @ map Some zs2 @ drop (i + (length xs - i)) ?ob1,
            take (Suc i) ?nb1 @ map Some (map t (drop i xs)) @ drop (Suc i + (length xs - i)) ?nb1)"
    by (auto simp: t_def)
  have ob2: "take i ?ob1 @ map Some zs2 @ drop (i + (length xs - i)) ?ob1 = map Some (zs1 @ zs2)"
    using zs1 i by simp
  have nb2: "take (Suc i) ?nb1 @ map Some (map t (drop i xs)) @ drop (Suc i + (length xs - i)) ?nb1
     = map Some (map t (take i xs) @ x # map t (drop i xs)) @ replicate (m - Suc (length xs)) None"
  proof -
    have a: "Suc (length xs) - i = Suc (length xs - i)" using i by simp
    have b: "m - Suc i - (length xs - i) = m - Suc (length xs)" using i m by simp
    show ?thesis using i by (simp add: min_absorb2 a b)
  qed
  have ds: "destroy_and_swap ?v (map Some (zs1 @ zs2)) nd'
       = Normal () (?v\<lparr>data_m := nd'\<rparr>)" for nd'
    using zs1 zs2 i by (intro destroy_and_swap_ok[of _ _ "zs1 @ zs2"]) simp_all
  have tr1': "transfer_n E (map Some xs) 0 i ((replicate m None)[i := Some x]) 0 = Normal () (?ob1, ?nb1)"
    using tr1 nb1 by simp
  have tr2': "transfer_n E ?ob1 i (length xs - i) ?nb1 (Suc i)
     = Normal () (map Some (zs1 @ zs2),
         map Some (map t (take i xs) @ x # map t (drop i xs)) @ replicate (m - Suc (length xs)) None)"
    using tr2 ob2 nb2 by simp
  have len: "length (map t (take i xs) @ x # map t (drop i xs)) = Suc (length xs)"
    using i by simp
  have "ReallocateAndEmbed E ?v i (Some x)
     = Normal () ((vec (map t (take i xs) @ x # map t (drop i xs)) m)\<lparr>size_m := length xs\<rparr>)"
    unfolding ReallocateAndEmbed_def nd
    using i im tr1' tr2' ds
    apply (simp add: RawMemory_plus_def)
    apply (simp add: vec_def len del: length_append length_map)
    done
  then show ?thesis by (simp add: t_def m_def)
qed

lemma Embed_end_vec:
  assumes "length xs < cap"
  shows "Embed E (vec xs cap) (length xs) (length xs) (Some x)
     = Normal () ((vec (xs @ [x]) cap)\<lparr>size_m := length xs\<rparr>)"
proof -
  have "(map Some xs @ replicate (cap - length xs) None)[length xs := Some x]
     = map Some xs @ Some x # replicate (cap - Suc (length xs)) None"
    using assms by (simp add: list_update_append replicate_Suc[symmetric] Suc_diff_Suc del: replicate_Suc)
       (metis Suc_diff_Suc list_update_code(2) replicate_Suc)
  then show ?thesis
    using assms
    by (simp add: Embed_def end_it_def RawMemory_plus_def with_block_def vec_def GetAddress_def)
qed

lemma Embed_middle_vec:
  assumes mc: "\<And>x. map_option fst (move_ctor E x) = Some x"
    and ma: "\<And>d x. map_option fst (move_assign E d x) = Some x"
    and i: "i < length xs" and lt: "length xs < cap"
  shows "Embed E (vec xs cap) i i (Some x)
     = Normal () ((vec (take i xs @ x # drop i xs) cap)\<lparr>size_m := length xs\<rparr>)"
proof -
  define e where "e = length xs"
  define pre where "pre = take i xs"
  define ys where "ys = butlast (drop i xs)"
  define l where "l = last xs"
  define pad where "pad = replicate (cap - Suc e) (None :: 'a option)"
  have ne: "drop i xs \<noteq> []" using i by simp
  have xs: "xs = pre @ ys @ [l]"
    using i ne by (metis append_butlast_last_id append_take_drop_id last_drop l_def pre_def ys_def)
  have lp: "length pre = i" using i by (simp add: pre_def min_absorb2)
  have ly: "length pre + length ys = e - 1" using xs by (simp add: e_def)
  have e: "e = Suc (length pre + length ys)" using xs by (simp add: e_def)
  have b: "GetAddress (vec xs cap) = map Some pre @ map Some ys @ Some l # None # pad"
  proof -
    have "cap - length xs = Suc (cap - Suc e)" using lt by (simp add: e_def)
    then have r: "replicate (cap - length xs) (None :: 'a option) = None # pad"
      by (simp add: pad_def)
    have "map Some xs = map Some pre @ map Some ys @ [Some l]"
      by (subst xs) simp
    then show ?thesis by (simp add: r)
  qed
  obtain l' where mcl: "move_ctor E l = Some (l, l')"
    using mc[of l] by (cases "move_ctor E l") auto
  have rd: "(map Some pre @ map Some ys @ Some l # None # pad) ! (e - 1) = Some l"
    unfolding ly[symmetric] by (metis append.assoc length_append length_map nth_append_length)
  have upd: "(map Some pre @ map Some ys @ Some l # None # pad)[e - 1 := Some l', e := Some l]
     = map Some pre @ map Some ys @ Some l' # Some l # pad"
    by (simp add: e list_update_append)
  from ranges_move_backward_shift_right[of ys E "map Some pre" l' "Some l # pad"] ma
  obtain z where mb: "ranges_move_backward E (map Some pre @ map Some ys @ Some l' # Some l # pad)
       (length ys) (length pre + length ys) (Suc (length pre + length ys))
     = Normal () (map Some pre @ Some z # map Some ys @ Some l # pad)" by auto
  obtain z' where maz: "move_assign E z x = Some (x, z')"
    using ma[of z x] by (cases "move_assign E z x") auto
  have fin: "(map Some pre @ Some z # map Some ys @ Some l # pad)[i := Some x]
     = map Some (take i xs @ x # drop i xs) @ replicate (cap - Suc (length xs)) None"
  proof -
    have "drop i xs = ys @ [l]" using xs lp by (metis append_eq_conv_conj)
    then show ?thesis
      using lp by (simp add: pre_def[symmetric] pad_def e_def list_update_append)
  qed
  have cnt: "e - 1 - i = length ys" using e lp by simp
  have "Embed E (vec xs cap) i i (Some x)
     = Normal () (with_block (vec xs cap) (map Some (take i xs @ x # drop i xs) @ replicate (cap - Suc (length xs)) None))"
    unfolding Embed_def b
    using i lt mcl rd upd mb maz fin lp cnt e
    by (simp add: end_it_def RawMemory_plus_def begin_it_def e_def[symmetric] nth_append)
  then show ?thesis
    using i by (simp add: with_block_def vec_def min_absorb2)
qed

lemma vec_size_update: "length ys = Suc n \<Longrightarrow> (vec ys cap)\<lparr>size_m := n, size_m := Suc n\<rparr> = vec ys cap"
  by (simp add: vec_def)

lemma Emplace_grow_vec:
  assumes cp: "\<And>x. copy_ctor E x = Some (cp x)"
    and mv: "\<And>x. map_option fst (move_ctor E x) = Some (mv x)"
    and i: "i \<le> length xs"
    and al: "allocates E (if length xs = 0 then 1 else length xs * 2)"
  shows "Emplace E (vec xs (length xs)) i (Some x)
     = Normal i (vec (map (if transfers_by_move E then mv else cp) (take i xs) @ x #
                      map (if transfers_by_move E then mv else cp) (drop i xs))
                   (if length xs = 0 then 1 else length xs * 2))"
proof -
  define ys where "ys = map (if transfers_by_move E then mv else cp) (take i xs) @ x #
                      map (if transfers_by_move E then mv else cp) (drop i xs)"
  define m where "m = (if length xs = 0 then 1 else length xs * 2)"
  have len: "length ys = Suc (length xs)" using i by (simp add: ys_def)
  have im: "i \<le> m" using i by (auto simp: m_def)
  have "ReallocateAndEmbed E (vec xs (length xs)) i (Some x) = Normal () ((vec ys m)\<lparr>size_m := length xs\<rparr>)"
    using ReallocateAndEmbed_vec[OF cp mv i al, of x] by (simp add: ys_def m_def)
  then have "Emplace E (vec xs (length xs)) i (Some x) = Normal i (vec ys m)"
    using im len by (simp add: Emplace_def begin_it_def RawMemory_plus_def vec_size_update)
  then show ?thesis by (simp add: ys_def m_def)
qed

lemma Emplace_room_vec:
  assumes mc: "\<And>x. map_option fst (move_ctor E x) = Some x"
    and ma: "\<And>d x. map_option fst (move_assign E d x) = Some x"
    and i: "i \<le> length xs" and lt: "length xs < cap"
  shows "Emplace E (vec xs cap) i (Some x) = Normal i (vec (take i xs @ x # drop i xs) cap)"
proof -
  define ys where "ys = take i xs @ x # drop i xs"
  have len: "length ys = Suc (length xs)" using i by (simp add: ys_def)
  have "Embed E (vec xs cap) i i (Some x) = Normal () ((vec ys cap)\<lparr>size_m := length xs\<rparr>)"
  proof (cases "i = length xs")
    case True
    then show ?thesis using Embed_end_vec[OF lt, of E x] by (simp add: ys_def)
  next
    case False
    then have "i < length xs" using i by simp
    from Embed_middle_vec[OF mc ma this lt, of x] show ?thesis by (simp add: ys_def)
  qed
  then have "Emplace E (vec xs cap) i (Some x) = Normal i (vec ys cap)"
    using i lt len by (simp add: Emplace_def begin_it_def RawMemory_plus_def vec_size_update)
  then show ?thesis by (simp add: ys_def)
qed

lemma regular_simps:
  assumes "regular E"
  shows "copy_ctor E x = Some x" "map_option fst (move_ctor E x) = Some x"
    "copy_assign E d x = Some x" "map_option fst (move_assign E d x) = Some x"
  using assms by (simp_all add: regular_def)

lemma Emplace_vec:
  assumes r: "regular E" and i: "i \<le> length xs" and le: "length xs \<le> cap"
    and al: "length xs = cap \<longrightarrow> allocates E (if length xs = 0 then 1 else length xs * 2)"
  shows "Emplace E (vec xs cap) i (Some x)
     = Normal i (vec (take i xs @ x # drop i xs)
                   (if length xs = cap then (if length xs = 0 then 1 else length xs * 2) else cap))"
proof (cases "length xs = cap")
  case True
  from al True have "allocates E (if length xs = 0 then 1 else length xs * 2)" by simp
  from Emplace_grow_vec[of E "\<lambda>x. x" "\<lambda>x. x", OF regular_simps(1,2)[OF r] i this, of x]
  show ?thesis using True by simp
next
  case False
  then have "length xs < cap" using le by simp
  from Emplace_room_vec[OF regular_simps(2,4)[OF r] i this, of x]
  show ?thesis using False by simp
qed

lemma PushBack_copy_vec:
  assumes r: "regular E" and le: "length xs \<le> cap"
    and al: "length xs = cap \<longrightarrow> allocates E (if length xs = 0 then 1 else length xs * 2)"
  shows "PushBack_copy E (vec xs cap) x
     = Normal () (vec (xs @ [x])
                   (if length xs = cap then (if length xs = 0 then 1 else length xs * 2) else cap))"
  using Emplace_vec[OF r _ le al, of "length xs" x] le regular_simps(1)[OF r]
  by (simp add: PushBack_copy_def EmplaceBack_def end_it_def RawMemory_plus_def)

lemma PushBack_all_room_vec:
  assumes r: "regular E"
  shows "length xs + length ys \<le> cap \<Longrightarrow> PushBack_all E (vec xs cap) ys = Normal () (vec (xs @ ys) cap)"
proof (induction ys arbitrary: xs)
  case Nil
  then show ?case by simp
next
  case (Cons y ys)
  have "PushBack_copy E (vec xs cap) y = Normal () (vec (xs @ [y]) cap)"
    using PushBack_copy_vec[OF r, of xs cap y] Cons.prems by simp
  moreover have "PushBack_all E (vec (xs @ [y]) cap) ys = Normal () (vec ((xs @ [y]) @ ys) cap)"
    using Cons.prems by (intro Cons.IH) simp
  ultimately show ?case by simp
qed

lemma Vector_copy_vec:
  assumes cp: "\<And>x. copy_ctor E x = Some x" and le: "length ys \<le> cap"
    and al: "allocates E (length ys)"
  shows "Vector_copy E (vec ys cap) = Normal (vec ys (length ys)) ()"
proof -
  have "take (length ys) (drop 0 (GetAddress (vec ys cap))) = map Some ys" by simp
  from uninitialized_copy_n_ok[of ys E "\<lambda>x. x" 0 _ 0 "replicate (length ys) None", OF cp this]
  show ?thesis
    by (simp add: Vector_copy_def RawMemory_sized_allocates[OF al] vec_eqI)
qed

lemma Vector_destroy_vec: "length xs \<le> cap \<Longrightarrow> Vector_destroy (vec xs cap) = Normal () ()"
  using destroy_n_ok[of xs 0 "map Some xs @ replicate (cap - length xs) None"]
  by (simp add: Vector_destroy_def)

lemma Swap_vec: "Swap (vec xs c) (vec ys d) = (vec ys d, vec xs c)"
  by (simp add: Swap_def RawMemory_Swap_def vec_def)

lemma copy_assignment_vec:
  assumes r: "regular E" and lx: "length xs \<le> cap" and ly: "length ys \<le> cap'"
    and al: "cap < length ys \<longrightarrow> allocates E (length ys)"
  shows "copy_assignment E (vec xs cap) (vec ys cap')
     = Normal () (vec ys (if cap < length ys then length ys else cap))"
proof (cases "cap < length ys")
  case True
  with al have "allocates E (length ys)" by simp
  with True show ?thesis
    using Vector_copy_vec[of E ys cap', OF regular_simps(1)[OF r] ly] Vector_destroy_vec[OF lx]
    by (simp add: copy_assignment_def Swap_vec)
next
  case False
  define k where "k = min (length xs) (length ys)"
  let ?bx = "map Some xs @ replicate (cap - length xs) None"
  let ?by = "map Some ys @ replicate (cap' - length ys) None"
  have k: "k \<le> length xs" "k \<le> length ys" by (simp_all add: k_def)
  have s1: "take (length (take k ys)) (drop 0 ?by) = map Some (take k ys)"
    using k by (simp add: take_map min_absorb2)
  have s2: "take (length (take k ys)) (drop 0 ?bx) = map Some (take k xs)"
    using k by (simp add: take_map min_absorb2)
  from ranges_copy_ok[of "take k ys" E 0 ?by 0 ?bx "take k xs", OF regular_simps(3)[OF r] s1 s2]
  have rc: "ranges_copy E ?by 0 k ?bx 0 = Normal () (map Some (take k ys) @ drop k ?bx)"
    using k by (simp add: min_absorb2)
  show ?thesis
  proof (cases "length ys < length xs")
    case True
    then have kk: "k = length ys" by (simp add: k_def)
    have "take (length (drop k xs)) (drop k (map Some (take k ys) @ drop k ?bx)) = map Some (drop k xs)"
      using k by (simp add: drop_map min_absorb2)
    from destroy_n_ok[OF this]
    have d: "destroy_n (map Some ys @ drop (length ys) ?bx) (length ys) (length xs - length ys)
       = Normal () (map Some ys @ replicate (cap - length ys) None)"
      using True lx by (simp add: kk replicate_add[symmetric])
    show ?thesis
      using True False lx rc d
      by (simp add: copy_assignment_def RawMemory_plus_def kk k_def[symmetric] with_block_size_vec)
  next
    case ge: False
    then have kk: "k = length xs" by (simp add: k_def)
    have s: "take (length (drop k ys)) (drop k ?by) = map Some (drop k ys)"
      by (simp add: drop_map)
    from uninitialized_copy_n_ok[of "drop k ys" E "\<lambda>x. x" k ?by k "map Some (take k ys) @ drop k ?bx",
        OF regular_simps(1)[OF r] s]
    have c: "uninitialized_copy_n E ?by (length xs) (length ys - length xs)
         (map Some (take (length xs) ys) @ replicate (cap - length xs) None) (length xs)
       = Normal () (map Some ys @ replicate (cap - length ys) None)"
      using ge False lx by (simp add: kk min_absorb2 take_map[symmetric] drop_map[symmetric] map_append[symmetric]
          del: map_append)
    show ?thesis
      using ge False lx ly rc c
      by (simp add: copy_assignment_def RawMemory_plus_def kk k_def[symmetric] with_block_size_vec)
  qed
qed

subsection \<open>Reading a vector that satisfies the invariant\<close>

lemma invariant_vecE:
  assumes "invariant v"
  obtains xs cap where "v = vec xs cap" and "length xs \<le> cap"
proof -
  have "v = vec (elements v) (Capacity v)" using assms by (rule invariant_is_vec)
  moreover have "length (elements v) \<le> Capacity v"
    using assms by (simp add: invariant_def elements_def)
  ultimately show ?thesis using that by blast
qed

lemma Vector_index_vec:
  "length xs \<le> cap \<Longrightarrow> Vector_index (vec xs cap) j = (if j < length xs then Some (xs ! j) else None)"
  by (simp add: Vector_index_def RawMemory_index_def vec_def nth_append)

lemma end_it_vec: "length xs \<le> cap \<Longrightarrow> end_it (vec xs cap) = Some (length xs)"
  by (simp add: end_it_def RawMemory_plus_def)

subsection \<open>Pushing onto the empty vector\<close>

lemma growth_count: "max 1 (n * 2) = (if n = 0 then 1 else n * 2)" for n :: nat
  by (cases n) simp_all

lemma Vector_default_vec: "Vector_default = vec [] 0"
  by (simp add: Vector_default_def RawMemory_default_def vec_def)

lemma PushBack_all_snoc:
  "PushBack_all E v (xs @ [x]) =
     (case PushBack_all E v xs of Normal _ v' \<Rightarrow> PushBack_copy E v' x | r \<Rightarrow> r)"
  by (induction xs arbitrary: v) (auto split: outcome.splits)

lemma PushBack_all_from_empty:
  assumes r: "regular E"
  shows "(\<forall>m<2 * length xs. allocates E m) \<Longrightarrow>
         \<exists>c. PushBack_all E (vec [] 0) xs = Normal () (vec xs c) \<and> length xs \<le> c \<and>
             (xs = [] \<longrightarrow> c = 0) \<and>
             (xs \<noteq> [] \<longrightarrow> (\<exists>k. c = 2 ^ k \<and> 2 ^ k < 2 * length xs))"
proof (induction xs rule: rev_induct)
  case Nil
  then show ?case by simp
next
  case (snoc x xs)
  have al: "allocates E m" if "m < 2 * length xs + 2" for m
    using snoc.prems that by simp
  then have "\<forall>m<2 * length xs. allocates E m" by simp
  with snoc.IH obtain c where run: "PushBack_all E (vec [] 0) xs = Normal () (vec xs c)"
    and le: "length xs \<le> c" and e: "xs = [] \<longrightarrow> c = 0"
    and p: "xs \<noteq> [] \<longrightarrow> (\<exists>k. c = 2 ^ k \<and> 2 ^ k < 2 * length xs)" by blast
  let ?c = "if length xs = c then (if length xs = 0 then 1 else length xs * 2) else c"
  have "allocates E (if length xs = 0 then 1 else length xs * 2)"
    by (rule al) simp
  then have al': "length xs = c \<longrightarrow> allocates E (if length xs = 0 then 1 else length xs * 2)"
    by blast
  have push: "PushBack_all E (vec [] 0) (xs @ [x]) = Normal () (vec (xs @ [x]) ?c)"
    using run PushBack_copy_vec[OF r le al', of x] by (simp add: PushBack_all_snoc)
  have le': "length (xs @ [x]) \<le> ?c" using le by auto
  have "\<exists>k. ?c = 2 ^ k \<and> 2 ^ k < 2 * length (xs @ [x])"
  proof (cases "xs = []")
    case True
    then have "?c = 2 ^ 0" using e by simp
    moreover have "(2::nat) ^ 0 < 2 * length (xs @ [x])" by simp
    ultimately show ?thesis by blast
  next
    case False
    then obtain k where k: "c = 2 ^ k" "2 ^ k < 2 * length xs" using p by blast
    show ?thesis
    proof (cases "length xs = c")
      case True
      then have "?c = 2 ^ Suc k" using False k by simp
      moreover have "(2::nat) ^ Suc k < 2 * length (xs @ [x])" using True k by simp
      ultimately show ?thesis by blast
    next
      case ne: False
      then have "?c = 2 ^ k" using k by simp
      moreover have "(2::nat) ^ k < 2 * length (xs @ [x])" using k by simp
      ultimately show ?thesis by blast
    qed
  qed
  with push le' show ?case by (intro exI[of _ ?c]) simp
qed

subsection \<open>Emplace for every element type\<close>

text \<open>
  What holds of \<^verbatim>\<open>Emplace\<close> whatever the member functions of the element type do: the
  capacity after a reallocation, the vector after a constructor of the new element has
  thrown, and the vector after any exception when the old elements are copied.
\<close>

lemma destroy_and_swap_Normal:
  assumes "destroy_and_swap v ob nd = Normal r v'"
  shows "data_m v' = nd \<and> size_m v' = size_m v"
  using assms
  by (cases nd) (auto simp: destroy_and_swap_def RawMemory_Swap_def split: outcome.splits)

lemma ReallocateAndEmbed_Normal:
  assumes "ReallocateAndEmbed E v distance args = Normal r v'"
  shows "capacity_m (data_m v') = (if size_m v = 0 then 1 else size_m v * 2) \<and> size_m v' = size_m v"
proof -
  from assms obtain nd where nd: "RawMemory_sized E (if size_m v = 0 then 1 else size_m v * 2) = Some nd"
    by (auto simp: ReallocateAndEmbed_def split: option.splits)
  have c: "capacity_m nd = (if size_m v = 0 then 1 else size_m v * 2)"
    using nd by (rule RawMemory_sized_capacity)
  from assms obtain ob nb where "destroy_and_swap v ob (nd\<lparr>buffer_m := nb\<rparr>) = Normal r v'"
    unfolding ReallocateAndEmbed_def nd
    by (auto split: option.splits if_splits outcome.splits prod.splits)
  from destroy_and_swap_Normal[OF this] c show ?thesis by simp
qed

lemma Emplace_growth_capacity:
  assumes "size_m v = capacity_m (data_m v)" and "Emplace E v pos args = Normal r v'"
  shows "Capacity v' = (if size_m v = 0 then 1 else size_m v * 2)"
proof -
  from assms obtain u where "ReallocateAndEmbed E v (pos - begin_it v) args = Normal () u"
    and "v' = u\<lparr>size_m := size_m u + 1\<rparr>"
    by (auto simp: Emplace_def Let_def split: outcome.splits option.splits)
  with ReallocateAndEmbed_Normal[of E v "pos - begin_it v" args "()" u]
  show ?thesis by (simp add: Capacity_def)
qed

lemma Emplace_None_vec:
  assumes "i \<le> length xs" and "length xs \<le> cap"
    and "length xs = cap \<longrightarrow> fits E (if length xs = 0 then 1 else length xs * 2)"
  shows "Emplace E (vec xs cap) i None = Throws (vec xs cap)"
proof (cases "length xs = cap")
  case True
  define m where "m = (if length xs = 0 then 1 else length xs * 2)"
  have im: "i < m" using assms(1) by (cases xs) (auto simp: m_def)
  have f: "fits E m" using assms(3) True unfolding m_def by blast
  have eq: "(if size_m (vec xs cap) = 0 then 1 else size_m (vec xs cap) * 2) = m"
    by (simp add: m_def)
  have "ReallocateAndEmbed E (vec xs cap) i None = Throws (vec xs cap)"
    unfolding ReallocateAndEmbed_def eq
    using RawMemory_sized_fits[OF f] im by (auto simp: RawMemory_plus_def)
  then show ?thesis
    using True by (simp add: Emplace_def begin_it_def)
next
  case False
  have "Embed E (vec xs cap) i i None = Throws (vec xs cap)"
    using assms False by (simp add: Embed_def end_it_def RawMemory_plus_def)
  then show ?thesis
    using False by (simp add: Emplace_def begin_it_def)
qed

lemma destroy_n_not_Throws: "destroy_n b first n \<noteq> Throws b'"
  by (induction n arbitrary: b first) (auto simp: destroy_at_def)

lemma with_block_GetAddress: "with_block v (GetAddress v) = v"
  by (simp add: with_block_def GetAddress_def)

lemma transfer_n_copy_Throws:
  assumes "\<not> transfers_by_move E" and "transfer_n E ob first n nb result = Throws (ob', nb')"
  shows "ob' = ob"
  using assms by (auto simp: transfer_n_def split: outcome.splits)

lemma transfer_n_copy_Normal:
  assumes "\<not> transfers_by_move E" and "transfer_n E ob first n nb result = Normal r (ob', nb')"
  shows "ob' = ob"
  using assms by (auto simp: transfer_n_def split: outcome.splits)

lemma ReallocateAndEmbed_copy_strong:
  assumes c: "\<not> transfers_by_move E" and t: "ReallocateAndEmbed E v distance args = Throws v'"
  shows "v' = v"
proof (cases "RawMemory_sized E (if size_m v = 0 then 1 else size_m v * 2)")
  case None
  then show ?thesis
    using t by (simp add: ReallocateAndEmbed_def)
next
  case (Some nd)
  note nd = Some
  show ?thesis
  proof (cases args)
  case None
  then show ?thesis
    using t by (auto simp: ReallocateAndEmbed_def nd split: option.splits if_splits)
next
  case (Some x)
  from t Some consider
    (first) ob nb p where "transfer_n E (GetAddress v) 0 distance ((buffer_m nd)[p := Some x]) 0 = Throws (ob, nb)"
      "v' = with_block v ob"
    | (second) ob nb p ob' nb' q r where
      "transfer_n E (GetAddress v) 0 distance ((buffer_m nd)[p := Some x]) 0 = Normal () (ob, nb)"
      "transfer_n E ob q (size_m v - distance) nb (r + 1) = Throws (ob', nb')" "v' = with_block v ob'"
    | (third) ob nb p ob' nb' q r where
      "transfer_n E (GetAddress v) 0 distance ((buffer_m nd)[p := Some x]) 0 = Normal () (ob, nb)"
      "transfer_n E ob q (size_m v - distance) nb (r + 1) = Normal () (ob', nb')"
      "destroy_and_swap v ob' (nd\<lparr>buffer_m := nb'\<rparr>) = Throws v'"
    unfolding ReallocateAndEmbed_def nd
    by (auto split: option.splits if_splits outcome.splits prod.splits)
  then show ?thesis
  proof cases
    case first
    then show ?thesis using transfer_n_copy_Throws[OF c first(1)] by (simp add: with_block_GetAddress)
  next
    case second
    then show ?thesis
      using transfer_n_copy_Normal[OF c second(1)] transfer_n_copy_Throws[OF c second(2)]
      by (simp add: with_block_GetAddress)
  next
    case third
    then show ?thesis
      by (auto simp: destroy_and_swap_def destroy_n_not_Throws RawMemory_Swap_def split: outcome.splits)
  qed
qed
qed

lemma Emplace_growth_copy_strong:
  assumes "\<not> transfers_by_move E" and "size_m v = capacity_m (data_m v)"
    and "Emplace E v pos args = Throws v'"
  shows "v' = v"
  using assms ReallocateAndEmbed_copy_strong[of E v "pos - begin_it v" args v']
  by (auto simp: Emplace_def Let_def split: outcome.splits option.splits)

subsection \<open>When the allocation throws\<close>

text \<open>
  \<^verbatim>\<open>std::bad_alloc\<close> from the allocation of the new block leaves the vector as it was.
\<close>

lemma Reserve_bad_alloc:
  assumes "Capacity v < n" and "RawMemory_sized E n = None"
  shows "Reserve E v n = Throws v"
  using assms by (simp add: Reserve_def Capacity_def)

lemma Resize_bad_alloc:
  assumes "Capacity v < n" and "RawMemory_sized E n = None"
  shows "Resize E v n = Throws v"
  using assms by (simp add: Resize_def Capacity_def)

lemma Emplace_bad_alloc:
  assumes "Size v = Capacity v"
    and "RawMemory_sized E (if size_m v = 0 then 1 else size_m v * 2) = None"
  shows "Emplace E v pos args = Throws v"
  using assms by (simp add: Emplace_def ReallocateAndEmbed_def Size_def Capacity_def)

lemma transfer_n_no_room:
  assumes "0 < n"
  shows "transfer_n E ob first n [] result = Undefined"
  using assms by (cases n) (simp_all add: transfer_n_def)

lemma allocates_int_type: "n * 4 < 2 ^ 64 \<Longrightarrow> allocates int_type n"
  by (simp add: allocates_def fits_def int_type_def)

lemma regular_int_type_limited: "regular (int_type_limited limit)"
  by (simp add: regular_def int_type_limited_def int_type_def)

subsection \<open>Move assignment and the invariant\<close>

lemma move_assignment_eq:
  "move_assignment this other
     = (this\<lparr>data_m := data_m other\<rparr>, \<lparr>data_m = \<lparr>buffer_m = [], capacity_m = 0\<rparr>, size_m = 0\<rparr>)"
  by (cases other; cases "data_m other")
     (simp add: move_assignment_def RawMemory_move_assign_def RawMemory_move_def RawMemory_Swap_def)

lemma invariant_Vector_default: "invariant Vector_default"
  by (simp add: Vector_default_vec invariant_vec)

lemma Vector_sized_vec:
  assumes "value_ctor E = Some d" and "allocates E n"
  shows "Vector_sized E n = Normal (vec (replicate n d) n) ()"
  using uninitialized_value_construct_n_ok[OF assms(1), of 0 n "replicate n None"]
  by (simp add: Vector_sized_def RawMemory_sized_allocates[OF assms(2)] vec_def map_replicate)

lemma invariant_Emplace:
  assumes "regular E" and "invariant v" and "i \<le> Size v"
    and "Size v = Capacity v \<longrightarrow> allocates E (max 1 (Size v * 2))"
  shows "\<exists>v'. Emplace E v (begin_it v + i) (Some x) = Normal (begin_it v' + i) v' \<and> invariant v' \<and>
           elements v' = take i (elements v) @ x # drop i (elements v) \<and> Size v' = Size v + 1"
proof -
  from assms(2) obtain xs cap where v: "v = vec xs cap" and le: "length xs \<le> cap"
    by (rule invariant_vecE)
  let ?c = "if length xs = cap then (if length xs = 0 then 1 else length xs * 2) else cap"
  have i: "i \<le> length xs" using assms(3) by (simp add: v)
  have al: "length xs = cap \<longrightarrow> allocates E (if length xs = 0 then 1 else length xs * 2)"
    using assms(4) unfolding v growth_count Size_vec Capacity_vec by blast
  have "Emplace E (vec xs cap) i (Some x) = Normal i (vec (take i xs @ x # drop i xs) ?c)"
    using assms(1) i le al by (rule Emplace_vec)
  moreover have "invariant (vec (take i xs @ x # drop i xs) ?c)"
    using i le by (intro invariant_vec) auto
  ultimately show ?thesis
    unfolding v using i by (simp add: begin_it_def min_absorb2)
qed

lemma invariant_PopBack:
  assumes "invariant v" and "0 < Size v"
  shows "\<exists>v'. PopBack v = Normal () v' \<and> invariant v' \<and> elements v' = butlast (elements v)"
proof -
  from assms(1) obtain xs cap where v: "v = vec xs cap" and le: "length xs \<le> cap"
    by (rule invariant_vecE)
  from assms(2) have "xs \<noteq> []" by (auto simp: v)
  then obtain ys y where xs: "xs = ys @ [y]" by (metis append_butlast_last_id)
  have lt: "length ys < cap" using le xs by simp
  have "PopBack (vec (ys @ [y]) cap) = Normal () (vec ys cap)"
    using lt by (rule PopBack_vec)
  moreover have "invariant (vec ys cap)" using lt by (intro invariant_vec) simp
  ultimately show ?thesis unfolding v xs by simp
qed

lemma invariant_Swap:
  assumes "invariant v" and "invariant w"
  shows "Swap v w = (w, v)"
proof -
  from assms(1) obtain xs c where v: "v = vec xs c" by (rule invariant_vecE)
  from assms(2) obtain ys d where w: "w = vec ys d" by (rule invariant_vecE)
  show ?thesis unfolding v w by (rule Swap_vec)
qed

lemma Vector_move_eq: "Vector_move w = (w, Vector_default)"
  by (cases w; cases "data_m w")
     (simp add: Vector_move_def RawMemory_move_def Vector_default_def RawMemory_default_def)

section \<open>The claims\<close>

text \<open>
  Claim C1 does not hold of the code. \<^verbatim>\<open>operator=(Vector&& other)\<close> sets
  \<^verbatim>\<open>other.size_\<close> to zero and move-assigns \<^verbatim>\<open>data_\<close>; it never assigns \<^verbatim>\<open>this->size_\<close>,
  as the move constructor does with \<^verbatim>\<open>size_(other.size_)\<close>. By \<open>move_assignment_eq\<close> the
  destination always gets the block of the source and keeps its own old size. Here the
  vector \<open>[1, 2, 3]\<close> is move-assigned to an empty vector: the destination owns the block
  of the source and the source has size zero, as claimed, but the size of the destination
  is 0, not 3, and iterating over it yields nothing.
\<close>

theorem C1_move_assignment_keeps_size:
  "move_assignment Vector_default
      \<lparr>data_m = \<lparr>buffer_m = [Some (1 :: int), Some 2, Some 3], capacity_m = 3\<rparr>, size_m = 3\<rparr>
     = (\<lparr>data_m = \<lparr>buffer_m = [Some 1, Some 2, Some 3], capacity_m = 3\<rparr>, size_m = 0\<rparr>,
        \<lparr>data_m = \<lparr>buffer_m = [], capacity_m = 0\<rparr>, size_m = 0\<rparr>) \<and>
   Size (fst (move_assignment Vector_default
      \<lparr>data_m = \<lparr>buffer_m = [Some (1 :: int), Some 2, Some 3], capacity_m = 3\<rparr>, size_m = 3\<rparr>)) = 0 \<and>
   Size \<lparr>data_m = \<lparr>buffer_m = [Some (1 :: int), Some 2, Some 3], capacity_m = 3\<rparr>, size_m = 3\<rparr> = 3 \<and>
   elements (fst (move_assignment Vector_default
      \<lparr>data_m = \<lparr>buffer_m = [Some (1 :: int), Some 2, Some 3], capacity_m = 3\<rparr>, size_m = 3\<rparr>)) = []"
  by (simp add: move_assignment_def RawMemory_move_assign_def RawMemory_move_def RawMemory_Swap_def
      Vector_default_def RawMemory_default_def Size_def elements_def GetAddress_def)

text \<open>
  Claim C2 does not hold of the code, by the same missing assignment of \<^verbatim>\<open>size_\<close> in
  \<^verbatim>\<open>operator=(Vector&&)\<close>. The vector \<open>[1, 2, 3]\<close> and the empty vector both satisfy the
  invariant; after move-assigning the empty vector to \<open>[1, 2, 3]\<close> the destination has
  size 3 and capacity 0, so its size exceeds its capacity. (The other operations keep the
  invariant for element types with value semantics: \<open>invariant_Vector_default\<close>,
  \<open>Vector_sized_vec\<close>, \<open>Vector_copy_vec\<close>, \<open>Vector_move_eq\<close>, \<open>invariant_Swap\<close>,
  \<open>invariant_Emplace\<close>, \<open>invariant_PopBack\<close>, and the theorems of the claims C6 to C9.)
\<close>

theorem C2_move_assignment_breaks_invariant:
  "invariant \<lparr>data_m = \<lparr>buffer_m = [Some (1 :: int), Some 2, Some 3], capacity_m = 3\<rparr>, size_m = 3\<rparr> \<and>
   invariant (Vector_default :: int Vector) \<and>
   move_assignment
      \<lparr>data_m = \<lparr>buffer_m = [Some (1 :: int), Some 2, Some 3], capacity_m = 3\<rparr>, size_m = 3\<rparr> Vector_default
     = (\<lparr>data_m = \<lparr>buffer_m = [], capacity_m = 0\<rparr>, size_m = 3\<rparr>,
        \<lparr>data_m = \<lparr>buffer_m = [], capacity_m = 0\<rparr>, size_m = 0\<rparr>) \<and>
   \<not> invariant \<lparr>data_m = \<lparr>buffer_m = [] :: int option list, capacity_m = 0\<rparr>, size_m = 3\<rparr> \<and>
   \<not> Size \<lparr>data_m = \<lparr>buffer_m = [] :: int option list, capacity_m = 0\<rparr>, size_m = 3\<rparr>
       \<le> Capacity \<lparr>data_m = \<lparr>buffer_m = [] :: int option list, capacity_m = 0\<rparr>, size_m = 3\<rparr>"
  by (simp add: move_assignment_def RawMemory_move_assign_def RawMemory_move_def RawMemory_Swap_def
      Vector_default_def RawMemory_default_def Size_def Capacity_def invariant_def GetAddress_def)

text \<open>
  Claim C3. For a vector that satisfies the invariant and a position \<^verbatim>\<open>begin() + i\<close> with
  \<open>i \<le> size\<close>: when the constructor of the new element throws, \<^verbatim>\<open>Emplace\<close> lets the
  exception escape and leaves the vector exactly as it was, with its size, its capacity and
  its elements. The same holds for \<^verbatim>\<open>EmplaceBack\<close>, and for \<^verbatim>\<open>Insert\<close> and \<^verbatim>\<open>PushBack\<close>
  when the copy or move constructor that makes the new element from \<^verbatim>\<open>value\<close> throws. The
  statement covers the path with size equal to capacity and the path with room, and every
  element type. On the path with size equal to capacity the byte count of the new block
  must not wrap round; that is so for every block that exists, since a block has at most
  \<^verbatim>\<open>PTRDIFF_MAX\<close> bytes and the new one has twice as many slots. Whether
  \<^verbatim>\<open>operator new\<close> returns does not matter: \<^verbatim>\<open>std::bad_alloc\<close> leaves the vector as it
  was, too. (By \<open>Emplace_growth_copy_strong\<close>, on the path with size equal to capacity of
  an element type whose elements are copied into the new block, every exception, also one
  from a copy of an old element, leaves the vector as it was.)
\<close>

theorem C3_Emplace_constructor_throws:
  assumes "invariant v" and "i \<le> Size v"
    and "Size v = Capacity v \<longrightarrow> fits E (max 1 (Size v * 2))"
  shows "Emplace E v (begin_it v + i) None = Throws v \<and> EmplaceBack E v None = Throws v \<and>
         (copy_ctor E x = None \<longrightarrow>
            Insert_copy E v (begin_it v + i) x = Throws v \<and> PushBack_copy E v x = Throws v) \<and>
         (move_ctor E y = None \<longrightarrow>
            Insert_move E v (begin_it v + i) y = Throws v \<and> PushBack_move E v y = Throws v)"
proof -
  from assms(1) obtain xs cap where v: "v = vec xs cap" and le: "length xs \<le> cap"
    by (rule invariant_vecE)
  have i: "i \<le> length xs" using assms(2) by (simp add: v)
  have f: "length xs = cap \<longrightarrow> fits E (if length xs = 0 then 1 else length xs * 2)"
    using assms(3) unfolding v growth_count Size_vec Capacity_vec by blast
  have a: "Emplace E v (begin_it v + i) None = Throws v"
    unfolding v using Emplace_None_vec[OF i le f] by (simp add: begin_it_def)
  have b: "EmplaceBack E v None = Throws v"
    unfolding v using Emplace_None_vec[OF _ le f, of "length xs"] le
    by (simp add: EmplaceBack_def end_it_def RawMemory_plus_def)
  show ?thesis
    using a b
    by (simp add: Insert_copy_def Insert_move_def PushBack_copy_def PushBack_move_def)
qed

theorem C3_Emplace_constructor_throws_witness:
  "invariant (vec [(1 :: int, False), (2, False)] 2) \<and> 1 \<le> Size (vec [(1 :: int, False), (2, False)] 2) \<and>
   Size (vec [(1 :: int, False), (2, False)] 2) = Capacity (vec [(1 :: int, False), (2, False)] 2) \<and>
   fits throwing_type (max 1 (Size (vec [(1 :: int, False), (2, False)] 2) * 2)) \<and>
   copy_ctor throwing_type (3, True) = None \<and> move_ctor throwing_type (3, True) = None \<and>
   Emplace throwing_type (vec [(1, False), (2, False)] 2) (begin_it (vec [(1 :: int, False), (2, False)] 2) + 1) None
     = Throws (vec [(1, False), (2, False)] 2) \<and>
   EmplaceBack throwing_type (vec [(1, False), (2, False)] 2) None = Throws (vec [(1, False), (2, False)] 2) \<and>
   Insert_copy throwing_type (vec [(1, False), (2, False)] 2) (begin_it (vec [(1 :: int, False), (2, False)] 2) + 1) (3, True)
     = Throws (vec [(1, False), (2, False)] 2) \<and>
   PushBack_copy throwing_type (vec [(1, False), (2, False)] 2) (3, True) = Throws (vec [(1, False), (2, False)] 2) \<and>
   Insert_move throwing_type (vec [(1, False), (2, False)] 2) (begin_it (vec [(1 :: int, False), (2, False)] 2) + 1) (3, True)
     = Throws (vec [(1, False), (2, False)] 2) \<and>
   PushBack_move throwing_type (vec [(1, False), (2, False)] 2) (3, True) = Throws (vec [(1, False), (2, False)] 2)"
proof -
  let ?v = "vec [(1 :: int, False), (2, False)] 2"
  have inv: "invariant ?v" by (simp add: invariant_vec)
  have le: "1 \<le> Size ?v" by simp
  have full: "Size ?v = Capacity ?v" by simp
  have f: "fits throwing_type (max 1 (Size ?v * 2))"
    by (simp add: fits_def throwing_type_def)
  then have f': "Size ?v = Capacity ?v \<longrightarrow> fits throwing_type (max 1 (Size ?v * 2))" by blast
  have t: "copy_ctor throwing_type (3, True) = None" "move_ctor throwing_type (3, True) = None"
    by (simp_all add: throwing_type_def)
  from C3_Emplace_constructor_throws[OF inv le f', of "(3, True)" "(3, True)"] t
  have "Emplace throwing_type ?v (begin_it ?v + 1) None = Throws ?v \<and>
        EmplaceBack throwing_type ?v None = Throws ?v \<and>
        Insert_copy throwing_type ?v (begin_it ?v + 1) (3, True) = Throws ?v \<and>
        PushBack_copy throwing_type ?v (3, True) = Throws ?v \<and>
        Insert_move throwing_type ?v (begin_it ?v + 1) (3, True) = Throws ?v \<and>
        PushBack_move throwing_type ?v (3, True) = Throws ?v"
    by blast
  with inv le full f t show ?thesis by blast
qed

text \<open>
  Claim C4. For a vector that satisfies the invariant and whose size equals its capacity,
  \<^verbatim>\<open>Emplace\<close> at any position \<open>i \<le> size\<close> returns normally and leaves a capacity of
  exactly \<open>max 1 (size * 2)\<close>; \<^verbatim>\<open>Insert\<close> of a value at that position, by copy or by move,
  does the same as \<^verbatim>\<open>Emplace\<close> of it, and \<^verbatim>\<open>PushBack\<close> ends with that capacity as well.
  Pushing the values \<open>xs\<close> one after the other onto the empty
  vector returns normally with the elements \<open>xs\<close>; the capacity is 0 for no push and
  otherwise the power of two \<open>2 ^ k\<close> with \<open>length xs \<le> 2 ^ k < 2 * length xs\<close>, so the
  capacities at the successive reallocations are 1, 2, 4, and so on. The element type has
  value semantics, and the allocations succeed: the one of the new block of
  \<open>max 1 (size * 2)\<close> slots, and in the run of pushes those of the blocks of fewer than
  \<open>2 * length xs\<close> slots. (By \<open>Emplace_growth_capacity\<close> the capacity formula holds for
  every element type and every vector with size equal to capacity, whenever \<^verbatim>\<open>Emplace\<close>
  returns; by \<open>Emplace_bad_alloc\<close> the vector is as it was when the allocation throws.)
\<close>

theorem C4_growth:
  assumes "regular E" and "invariant v"
  shows "(Size v = Capacity v \<and> i \<le> Size v \<and> allocates E (max 1 (Size v * 2)) \<longrightarrow>
           (\<exists>v'. Emplace E v (begin_it v + i) (Some x) = Normal (begin_it v' + i) v' \<and>
                  Capacity v' = max 1 (Size v * 2) \<and>
                  Insert_copy E v (begin_it v + i) x = Normal (begin_it v' + i) v' \<and>
                  Insert_move E v (begin_it v + i) x = Normal (begin_it v' + i) v') \<and>
           (\<exists>u. PushBack_copy E v x = Normal () u \<and> Capacity u = max 1 (Size v * 2))) \<and>
         ((\<forall>m<2 * length xs. allocates E m) \<longrightarrow>
           (\<exists>u. PushBack_all E Vector_default xs = Normal () u \<and> elements u = xs \<and>
              (xs = [] \<longrightarrow> Capacity u = 0) \<and>
              (xs \<noteq> [] \<longrightarrow> (\<exists>k. Capacity u = 2 ^ k \<and> length xs \<le> 2 ^ k \<and> 2 ^ k < 2 * length xs))))"
proof -
  from assms(2) obtain ys cap where v: "v = vec ys cap" and le: "length ys \<le> cap"
    by (rule invariant_vecE)
  have "(\<exists>v'. Emplace E v (begin_it v + i) (Some x) = Normal (begin_it v' + i) v' \<and>
              Capacity v' = max 1 (Size v * 2) \<and>
              Insert_copy E v (begin_it v + i) x = Normal (begin_it v' + i) v' \<and>
              Insert_move E v (begin_it v + i) x = Normal (begin_it v' + i) v') \<and>
         (\<exists>u. PushBack_copy E v x = Normal () u \<and> Capacity u = max 1 (Size v * 2))"
    if full: "Size v = Capacity v" and i: "i \<le> Size v" and al: "allocates E (max 1 (Size v * 2))"
  proof -
    have i': "i \<le> length ys" and c: "length ys = cap" using full i by (simp_all add: v)
    have al': "length ys = cap \<longrightarrow> allocates E (if length ys = 0 then 1 else length ys * 2)"
      using al unfolding v growth_count Size_vec by blast
    have "Emplace E (vec ys cap) i (Some x)
       = Normal i (vec (take i ys @ x # drop i ys)
                     (if length ys = cap then (if length ys = 0 then 1 else length ys * 2) else cap))"
      using assms(1) i' le al' by (rule Emplace_vec)
    then have e: "\<exists>v'. Emplace E v (begin_it v + i) (Some x) = Normal (begin_it v' + i) v' \<and>
              Capacity v' = max 1 (Size v * 2)"
      unfolding v using c by (auto simp: begin_it_def)
    have ins: "Insert_copy E v (begin_it v + i) x = Emplace E v (begin_it v + i) (Some x)"
      "Insert_move E v (begin_it v + i) x = Emplace E v (begin_it v + i) (Some x)"
      using regular_simps(1,2)[OF assms(1), of x]
      by (simp_all only: Insert_copy_def Insert_move_def)
    have "PushBack_copy E (vec ys cap) x
       = Normal () (vec (ys @ [x])
                     (if length ys = cap then (if length ys = 0 then 1 else length ys * 2) else cap))"
      using assms(1) le al' by (rule PushBack_copy_vec)
    then have p: "\<exists>u. PushBack_copy E v x = Normal () u \<and> Capacity u = max 1 (Size v * 2)"
      unfolding v using c by auto
    show ?thesis using e p unfolding ins by blast
  qed
  moreover
  have "\<exists>u. PushBack_all E Vector_default xs = Normal () u \<and> elements u = xs \<and>
              (xs = [] \<longrightarrow> Capacity u = 0) \<and>
              (xs \<noteq> [] \<longrightarrow> (\<exists>k. Capacity u = 2 ^ k \<and> length xs \<le> 2 ^ k \<and> 2 ^ k < 2 * length xs))"
    if "\<forall>m<2 * length xs. allocates E m"
    using PushBack_all_from_empty[OF assms(1) that]
    unfolding Vector_default_vec by (auto simp del: power_Suc)
  ultimately show ?thesis by blast
qed

theorem C4_growth_witness:
  "regular int_type \<and> invariant (vec [1, 2 :: int] 2) \<and>
   Size (vec [1, 2 :: int] 2) = Capacity (vec [1, 2 :: int] 2) \<and> 1 \<le> Size (vec [1, 2 :: int] 2) \<and>
   allocates int_type (max 1 (Size (vec [1, 2 :: int] 2) * 2)) \<and>
   allocates int_type 0 \<and> allocates int_type 1 \<and> allocates int_type 2 \<and> allocates int_type 3 \<and>
   allocates int_type 4 \<and> allocates int_type 5 \<and>
   [1, 2, 3 :: int] \<noteq> [] \<and>
   (\<exists>v'. Emplace int_type (vec [1, 2] 2) (begin_it (vec [1, 2 :: int] 2) + 1) (Some 99)
            = Normal (begin_it v' + 1) v' \<and> Capacity v' = 4) \<and>
   (\<exists>u. PushBack_all int_type Vector_default [] = Normal () u \<and> Capacity u = 0) \<and>
   (\<exists>u. PushBack_all int_type Vector_default [1, 2, 3] = Normal () u \<and> elements u = [1, 2, 3] \<and>
        (\<exists>k. Capacity u = 2 ^ k \<and> length [1, 2, 3 :: int] \<le> 2 ^ k \<and> 2 ^ k < 2 * length [1, 2, 3 :: int]) \<and>
        Capacity u = 4)"
proof -
  let ?v = "vec [1, 2 :: int] 2"
  have r: "regular int_type" by (simp add: regular_def int_type_def)
  have inv: "invariant ?v" by (simp add: invariant_vec)
  have h: "Size ?v = Capacity ?v" "1 \<le> Size ?v" "[1, 2, 3 :: int] \<noteq> []" by simp_all
  have al: "allocates int_type (max 1 (Size ?v * 2))"
    by (intro allocates_int_type) simp
  have al0: "\<forall>m<2 * length ([] :: int list). allocates int_type m" by simp
  have als: "allocates int_type 0" "allocates int_type 1" "allocates int_type 2" "allocates int_type 3"
    "allocates int_type 4" "allocates int_type 5"
    by (simp_all add: allocates_int_type)
  have al3: "\<forall>m<2 * length [1, 2, 3 :: int]. allocates int_type m"
    by (auto intro!: allocates_int_type)
  from C4_growth[OF r inv, of 1 99 "[]"] h al al0
  have a: "\<exists>v'. Emplace int_type ?v (begin_it ?v + 1) (Some 99) = Normal (begin_it v' + 1) v' \<and> Capacity v' = 4"
    and b: "\<exists>u. PushBack_all int_type Vector_default [] = Normal () u \<and> Capacity u = 0"
    by (auto simp: eval_nat_numeral)
  from C4_growth[OF r inv, of 1 99 "[1, 2, 3]"] h al3 obtain u k where
    u: "PushBack_all int_type Vector_default [1, 2, 3] = Normal () u" "elements u = [1, 2, 3]"
      "Capacity u = 2 ^ k" "length [1, 2, 3 :: int] \<le> 2 ^ k" "2 ^ k < 2 * length [1, 2, 3 :: int]"
    by blast
  have "PushBack_all int_type Vector_default [1, 2, 3] = Normal () (vec [1, 2, 3] 4)"
    by (simp add: Vector_default_vec PushBack_copy_vec[OF r] allocates_int_type)
  with u(1) have "Capacity u = 4" by simp
  with u have c: "\<exists>u. PushBack_all int_type Vector_default [1, 2, 3] = Normal () u \<and> elements u = [1, 2, 3] \<and>
        (\<exists>k. Capacity u = 2 ^ k \<and> length [1, 2, 3 :: int] \<le> 2 ^ k \<and> 2 ^ k < 2 * length [1, 2, 3 :: int]) \<and>
        Capacity u = 4"
    by blast
  show ?thesis using r inv h al als a b c by blast
qed

text \<open>
  Claim C5. Let the copy constructor of the element type compute \<open>cp\<close> and its move
  constructor \<open>mv\<close>. On each path that reallocates (\<^verbatim>\<open>Reserve\<close> and \<^verbatim>\<open>Resize\<close> beyond the
  capacity, \<^verbatim>\<open>Emplace\<close> with size equal to capacity) the old elements arrive in the new
  block as their images under \<open>mv\<close> if the move constructor is non-throwing or the type is
  not copy-constructible, and as their images under \<open>cp\<close> otherwise. The vector satisfies
  the invariant, and the allocation of the new block succeeds: there is a new block of the
  requested number of slots to transfer into.
\<close>

theorem C5_transfer_policy:
  assumes "\<forall>x. copy_ctor E x = Some (cp x)" and "\<forall>x. map_option fst (move_ctor E x) = Some (mv x)"
    and "value_ctor E = Some d" and "invariant v"
  shows "let t = (if is_nothrow_move_constructible E \<or> \<not> is_copy_constructible E then mv else cp) in
         (Capacity v < n \<and> allocates E n \<longrightarrow>
            (\<exists>v'. Reserve E v n = Normal () v' \<and> elements v' = map t (elements v))) \<and>
         (Capacity v < n \<and> allocates E n \<longrightarrow>
            (\<exists>v'. Resize E v n = Normal () v' \<and>
                   elements v' = map t (elements v) @ replicate (n - Size v) d)) \<and>
         (Size v = Capacity v \<and> i \<le> Size v \<and> allocates E (max 1 (Size v * 2)) \<longrightarrow>
            (\<exists>v'. Emplace E v (begin_it v + i) (Some x) = Normal (begin_it v' + i) v' \<and>
                   elements v' = map t (take i (elements v)) @ x # map t (drop i (elements v))))"
proof -
  define t where "t = (if transfers_by_move E then mv else cp)"
  from assms(4) obtain xs cap where v: "v = vec xs cap" and le: "length xs \<le> cap"
    by (rule invariant_vecE)
  have cp: "\<And>x. copy_ctor E x = Some (cp x)" and mv: "\<And>x. map_option fst (move_ctor E x) = Some (mv x)"
    using assms(1,2) by simp_all
  have a: "\<exists>v'. Reserve E v n = Normal () v' \<and> elements v' = map t (elements v)"
    if "Capacity v < n" and al: "allocates E n"
  proof -
    have "Reserve E (vec xs cap) n = Normal () (vec (map t xs) n)"
      unfolding t_def using cp mv le that(1)[unfolded v Capacity_vec] al by (rule Reserve_vec)
    then show ?thesis unfolding v by simp
  qed
  have b: "\<exists>v'. Resize E v n = Normal () v' \<and> elements v' = map t (elements v) @ replicate (n - Size v) d"
    if "Capacity v < n" and al: "allocates E n"
  proof -
    have "Resize E (vec xs cap) n = Normal () (vec (map t xs @ replicate (n - length xs) d) n)"
      unfolding t_def using cp mv assms(3) le that(1)[unfolded v Capacity_vec] al by (rule Resize_grow_vec)
    then show ?thesis unfolding v by simp
  qed
  have c: "\<exists>v'. Emplace E v (begin_it v + i) (Some x) = Normal (begin_it v' + i) v' \<and>
                elements v' = map t (take i (elements v)) @ x # map t (drop i (elements v))"
    if "Size v = Capacity v" and "i \<le> Size v" and al: "allocates E (max 1 (Size v * 2))"
  proof -
    have cap: "cap = length xs" and i: "i \<le> length xs" using that by (simp_all add: v)
    have al': "allocates E (if length xs = 0 then 1 else length xs * 2)"
      using al unfolding v growth_count Size_vec by blast
    have "Emplace E (vec xs (length xs)) i (Some x)
       = Normal i (vec (map t (take i xs) @ x # map t (drop i xs)) (if length xs = 0 then 1 else length xs * 2))"
      unfolding t_def using cp mv i al' by (rule Emplace_grow_vec)
    then show ?thesis unfolding v cap by (simp add: begin_it_def)
  qed
  have t: "(if is_nothrow_move_constructible E \<or> \<not> is_copy_constructible E then mv else cp) = t"
    by (simp add: t_def transfers_by_move_def)
  show ?thesis
    unfolding Let_def t using a b c by blast
qed

theorem C5_transfer_policy_witness:
  "(\<forall>x. copy_ctor (counting_type False True) x = Some (fst x, fst (snd x) + 1, snd (snd x))) \<and>
   (\<forall>x. map_option fst (move_ctor (counting_type False True) x) = Some (fst x, fst (snd x), snd (snd x) + 1)) \<and>
   (\<forall>x. copy_ctor (counting_type True True) x = Some (fst x, fst (snd x) + 1, snd (snd x))) \<and>
   (\<forall>x. map_option fst (move_ctor (counting_type True True) x) = Some (fst x, fst (snd x), snd (snd x) + 1)) \<and>
   value_ctor (counting_type False True) = Some (0, 0, 0) \<and>
   value_ctor (counting_type True True) = Some (0, 0, 0) \<and>
   invariant (vec [(1 :: int, 0 :: nat, 0 :: nat), (2, 0, 0)] 2) \<and>
   Capacity (vec [(1 :: int, 0 :: nat, 0 :: nat), (2, 0, 0)] 2) < 3 \<and>
   Size (vec [(1 :: int, 0 :: nat, 0 :: nat), (2, 0, 0)] 2) = Capacity (vec [(1 :: int, 0 :: nat, 0 :: nat), (2, 0, 0)] 2) \<and>
   1 \<le> Size (vec [(1 :: int, 0 :: nat, 0 :: nat), (2, 0, 0)] 2) \<and>
   allocates (counting_type False True) 3 \<and> allocates (counting_type True True) 3 \<and>
   allocates (counting_type False True) (max 1 (Size (vec [(1 :: int, 0 :: nat, 0 :: nat), (2, 0, 0)] 2) * 2)) \<and>
   allocates (counting_type True True) (max 1 (Size (vec [(1 :: int, 0 :: nat, 0 :: nat), (2, 0, 0)] 2) * 2)) \<and>
   (\<exists>v'. Reserve (counting_type False True) (vec [(1, 0, 0), (2, 0, 0)] 2) 3 = Normal () v' \<and>
          elements v' = [(1, 1, 0), (2, 1, 0)]) \<and>
   (\<exists>v'. Resize (counting_type False True) (vec [(1, 0, 0), (2, 0, 0)] 2) 3 = Normal () v' \<and>
          elements v' = [(1, 1, 0), (2, 1, 0), (0, 0, 0)]) \<and>
   (\<exists>v'. Emplace (counting_type False True) (vec [(1, 0, 0), (2, 0, 0)] 2)
            (begin_it (vec [(1 :: int, 0 :: nat, 0 :: nat), (2, 0, 0)] 2) + 1) (Some (9, 0, 0))
            = Normal (begin_it v' + 1) v' \<and>
          elements v' = [(1, 1, 0), (9, 0, 0), (2, 1, 0)]) \<and>
   (\<exists>v'. Reserve (counting_type True True) (vec [(1, 0, 0), (2, 0, 0)] 2) 3 = Normal () v' \<and>
          elements v' = [(1, 0, 1), (2, 0, 1)]) \<and>
   (\<exists>v'. Resize (counting_type True True) (vec [(1, 0, 0), (2, 0, 0)] 2) 3 = Normal () v' \<and>
          elements v' = [(1, 0, 1), (2, 0, 1), (0, 0, 0)]) \<and>
   (\<exists>v'. Emplace (counting_type True True) (vec [(1, 0, 0), (2, 0, 0)] 2)
            (begin_it (vec [(1 :: int, 0 :: nat, 0 :: nat), (2, 0, 0)] 2) + 1) (Some (9, 0, 0))
            = Normal (begin_it v' + 1) v' \<and>
          elements v' = [(1, 0, 1), (9, 0, 0), (2, 0, 1)])"
proof -
  let ?v = "vec [(1 :: int, 0 :: nat, 0 :: nat), (2, 0, 0)] 2"
  let ?cp = "\<lambda>x :: int \<times> nat \<times> nat. (fst x, fst (snd x) + 1, snd (snd x))"
  let ?mv = "\<lambda>x :: int \<times> nat \<times> nat. (fst x, fst (snd x), snd (snd x) + 1)"
  have cp: "\<forall>x. copy_ctor (counting_type a b) x = Some (?cp x)" for a b
    by (simp add: counting_type_def split: prod.splits)
  have mv: "\<forall>x. map_option fst (move_ctor (counting_type a b) x) = Some (?mv x)" for a b
    by (simp add: counting_type_def split: prod.splits)
  have d: "value_ctor (counting_type a b) = Some (0, 0, 0)" for a b
    by (simp add: counting_type_def)
  have tr: "is_nothrow_move_constructible (counting_type a b) = a" "is_copy_constructible (counting_type a b) = b" for a b
    by (simp_all add: counting_type_def)
  have inv: "invariant ?v" by (simp add: invariant_vec)
  have h: "Capacity ?v < 3" "Size ?v = Capacity ?v" "1 \<le> Size ?v" by simp_all
  have al: "allocates (counting_type a b) 3" "allocates (counting_type a b) (max 1 (Size ?v * 2))" for a b
    by (simp_all add: allocates_def fits_def counting_type_def)
  have rep: "replicate (3 - Size ?v) (0 :: int, 0 :: nat, 0 :: nat) = [(0, 0, 0)]"
    by (simp add: eval_nat_numeral)
  from C5_transfer_policy[OF cp mv d inv, of False True 3 1 "(9, 0, 0)"] h rep al
  have a: "(\<exists>v'. Reserve (counting_type False True) ?v 3 = Normal () v' \<and>
             elements v' = [(1, 1, 0), (2, 1, 0)]) \<and>
           (\<exists>v'. Resize (counting_type False True) ?v 3 = Normal () v' \<and>
             elements v' = [(1, 1, 0), (2, 1, 0), (0, 0, 0)]) \<and>
           (\<exists>v'. Emplace (counting_type False True) ?v (begin_it ?v + 1) (Some (9, 0, 0))
               = Normal (begin_it v' + 1) v' \<and>
             elements v' = [(1, 1, 0), (9, 0, 0), (2, 1, 0)])"
    by (simp add: Let_def tr)
  from C5_transfer_policy[OF cp mv d inv, of True True 3 1 "(9, 0, 0)"] h rep al
  have b: "(\<exists>v'. Reserve (counting_type True True) ?v 3 = Normal () v' \<and>
             elements v' = [(1, 0, 1), (2, 0, 1)]) \<and>
           (\<exists>v'. Resize (counting_type True True) ?v 3 = Normal () v' \<and>
             elements v' = [(1, 0, 1), (2, 0, 1), (0, 0, 0)]) \<and>
           (\<exists>v'. Emplace (counting_type True True) ?v (begin_it ?v + 1) (Some (9, 0, 0))
               = Normal (begin_it v' + 1) v' \<and>
             elements v' = [(1, 0, 1), (9, 0, 0), (2, 0, 1)])"
    by (simp add: Let_def tr)
  show ?thesis using cp mv d inv h al a b by blast
qed

text \<open>
  Claim C6. For vectors \<open>v\<close> and \<open>w\<close> that satisfy the invariant, copy-assigning \<open>w\<close> to
  \<open>v\<close> returns normally, and afterwards \<open>v\<close> has the elements and the size of \<open>w\<close>. When
  the size of \<open>w\<close> is at most the capacity of \<open>v\<close>, the capacity of \<open>v\<close> is unchanged,
  and the surplus tail of \<open>v\<close> is destroyed (the invariant afterwards says that the slots
  from the new size on are uninitialized); when the size of \<open>w\<close> exceeds the capacity of
  \<open>v\<close>, the capacity afterwards is at least the size of \<open>w\<close>. The element type has
  value semantics, and in the second case the allocation of the block for the copy of \<open>w\<close>
  succeeds; the first case allocates nothing.
\<close>

theorem C6_copy_assignment:
  assumes "regular E" and "invariant v" and "invariant w"
    and "Capacity v < Size w \<longrightarrow> allocates E (Size w)"
  shows "\<exists>v'. copy_assignment E v w = Normal () v' \<and> elements v' = elements w \<and>
           Size v' = Size w \<and> invariant v' \<and>
           (Size w \<le> Capacity v \<longrightarrow> Capacity v' = Capacity v) \<and>
           (Capacity v < Size w \<longrightarrow> Size w \<le> Capacity v')"
proof -
  from assms(2) obtain xs cap where v: "v = vec xs cap" and lx: "length xs \<le> cap"
    by (rule invariant_vecE)
  from assms(3) obtain ys cap' where w: "w = vec ys cap'" and ly: "length ys \<le> cap'"
    by (rule invariant_vecE)
  let ?c = "if cap < length ys then length ys else cap"
  have al: "cap < length ys \<longrightarrow> allocates E (length ys)"
    using assms(4) by (simp add: v w)
  have "copy_assignment E (vec xs cap) (vec ys cap') = Normal () (vec ys ?c)"
    using assms(1) lx ly al by (rule copy_assignment_vec)
  moreover have "invariant (vec ys ?c)"
    by (intro invariant_vec) simp
  ultimately show ?thesis
    unfolding v w by simp
qed

theorem C6_copy_assignment_witness:
  "regular int_type \<and> invariant (vec [1, 2, 3 :: int] 4) \<and> invariant (vec [7, 8 :: int] 2) \<and>
   Size (vec [7, 8 :: int] 2) \<le> Capacity (vec [1, 2, 3 :: int] 4) \<and>
   Capacity (vec [7, 8 :: int] 2) < Size (vec [1, 2, 3 :: int] 4) \<and>
   allocates int_type (Size (vec [1, 2, 3 :: int] 4)) \<and>
   (\<exists>v'. copy_assignment int_type (vec [1, 2, 3] 4) (vec [7, 8] 2) = Normal () v' \<and>
          elements v' = [7, 8] \<and> Size v' = 2 \<and> Capacity v' = 4 \<and> invariant v') \<and>
   (\<exists>v'. copy_assignment int_type (vec [7, 8] 2) (vec [1, 2, 3] 4) = Normal () v' \<and>
          elements v' = [1, 2, 3] \<and> Size v' = 3 \<and> 3 \<le> Capacity v' \<and> invariant v')"
proof -
  let ?v = "vec [1, 2, 3 :: int] 4" and ?w = "vec [7, 8 :: int] 2"
  have r: "regular int_type" by (simp add: regular_def int_type_def)
  have inv: "invariant ?v" "invariant ?w" by (simp_all add: invariant_vec)
  have h: "Size ?w \<le> Capacity ?v" "Capacity ?w < Size ?v" by simp_all
  have al: "allocates int_type (Size ?v)" by (intro allocates_int_type) simp
  have al1: "Capacity ?v < Size ?w \<longrightarrow> allocates int_type (Size ?w)" by simp
  have al2: "Capacity ?w < Size ?v \<longrightarrow> allocates int_type (Size ?v)" using al by blast
  from C6_copy_assignment[OF r inv(1) inv(2) al1] h
  have a: "\<exists>v'. copy_assignment int_type ?v ?w = Normal () v' \<and>
          elements v' = [7, 8] \<and> Size v' = 2 \<and> Capacity v' = 4 \<and> invariant v'"
    by (auto simp: eval_nat_numeral)
  from C6_copy_assignment[OF r inv(2) inv(1) al2] h
  have b: "\<exists>v'. copy_assignment int_type ?w ?v = Normal () v' \<and>
          elements v' = [1, 2, 3] \<and> Size v' = 3 \<and> 3 \<le> Capacity v' \<and> invariant v'"
    by (auto simp: eval_nat_numeral)
  show ?thesis using r inv h al a b by blast
qed

text \<open>
  Claim C7, as stated, fails for some \<open>n\<close> beyond the capacity. For \<open>n = 2 ^ 62\<close> and
  \<^verbatim>\<open>Vector<int>\<close> the byte count \<^verbatim>\<open>n * sizeof(T)\<close> wraps round to 0: the new block has no
  slot, its \<^verbatim>\<open>capacity_\<close> is \<open>n\<close>, and the transfer of the old elements writes past it.
  And where \<^verbatim>\<open>operator new\<close> gives at most 16 bytes, \<^verbatim>\<open>Resize(5)\<close> of the vector
  \<open>[1, 99, 3]\<close> of capacity 4 ends in \<^verbatim>\<open>std::bad_alloc\<close> with the vector as it was. In
  neither case does the size become \<open>n\<close>.
\<close>

theorem C7_counterexample:
  "regular int_type \<and> value_ctor int_type = Some 0 \<and>
   invariant \<lparr>data_m = \<lparr>buffer_m = [Some (1 :: int), Some 99, Some 3, None], capacity_m = 4\<rparr>, size_m = 3\<rparr> \<and>
   Capacity \<lparr>data_m = \<lparr>buffer_m = [Some (1 :: int), Some 99, Some 3, None], capacity_m = 4\<rparr>, size_m = 3\<rparr>
     < 2 ^ 62 \<and>
   Resize int_type
     \<lparr>data_m = \<lparr>buffer_m = [Some 1, Some 99, Some 3, None], capacity_m = 4\<rparr>, size_m = 3\<rparr> (2 ^ 62)
     = Undefined \<and>
   regular (int_type_limited 16) \<and> value_ctor (int_type_limited 16) = Some 0 \<and>
   Capacity \<lparr>data_m = \<lparr>buffer_m = [Some (1 :: int), Some 99, Some 3, None], capacity_m = 4\<rparr>, size_m = 3\<rparr>
     < 5 \<and>
   Resize (int_type_limited 16)
     \<lparr>data_m = \<lparr>buffer_m = [Some 1, Some 99, Some 3, None], capacity_m = 4\<rparr>, size_m = 3\<rparr> 5
     = Throws \<lparr>data_m = \<lparr>buffer_m = [Some 1, Some 99, Some 3, None], capacity_m = 4\<rparr>, size_m = 3\<rparr>"
proof -
  let ?v = "\<lparr>data_m = \<lparr>buffer_m = [Some (1 :: int), Some 99, Some 3, None], capacity_m = 4\<rparr>, size_m = 3\<rparr>"
  have v: "?v = vec [1, 99, 3] 4" by (simp add: vec_def eval_nat_numeral)
  have r: "regular int_type" "regular (int_type_limited 16)"
    by (simp_all add: regular_def int_type_limited_def int_type_def)
  have d: "value_ctor int_type = Some 0" "value_ctor (int_type_limited 16) = Some 0"
    by (simp_all add: int_type_limited_def int_type_def)
  have inv: "invariant ?v" unfolding v by (simp add: invariant_vec)
  have wrap: "RawMemory_sized int_type (2 ^ 62) = Some \<lparr>buffer_m = [], capacity_m = 2 ^ 62\<rparr>"
    by (simp add: RawMemory_sized_def Allocate_def int_type_def)
  have a: "Resize int_type ?v (2 ^ 62) = Undefined"
    unfolding Resize_def wrap by (simp add: transfer_n_no_room)
  have none: "RawMemory_sized (int_type_limited 16) 5 = None"
    by (simp add: RawMemory_sized_def Allocate_def int_type_limited_def int_type_def)
  have b: "Resize (int_type_limited 16) ?v 5 = Throws ?v"
    by (simp add: Resize_def none)
  show ?thesis
    using r d inv a b by (simp add: Capacity_def)
qed

text \<open>
  Claim C7, amended. For a vector that satisfies the invariant and every \<open>n\<close> that is at
  most the capacity or for which the allocation of \<open>n\<close> slots succeeds (the byte count
  \<^verbatim>\<open>n * sizeof(T)\<close> does not wrap round and \<^verbatim>\<open>operator new\<close> returns), \<^verbatim>\<open>Resize(n)\<close>
  returns normally and the size becomes \<open>n\<close>. With \<open>n < size\<close> the first \<open>n\<close> elements
  stay and the tail is destroyed (the invariant afterwards says that the slots from \<open>n\<close> on
  are uninitialized); with \<open>size \<le> n \<le> capacity\<close>, \<open>n - size\<close> value-initialized elements
  are appended in place; with \<open>n > capacity\<close> the capacity becomes exactly \<open>n\<close>, the
  elements are kept and the new tail is value-initialized. The element type has value
  semantics and its default constructor returns \<open>d\<close>. (By \<open>Resize_bad_alloc\<close> the vector
  is as it was when \<^verbatim>\<open>operator new\<close> throws.)
\<close>

theorem C7_Resize_amended:
  assumes "regular E" and "value_ctor E = Some d" and "invariant v"
    and "Capacity v < n \<longrightarrow> allocates E n"
  shows "\<exists>v'. Resize E v n = Normal () v' \<and> Size v' = n \<and> invariant v' \<and>
           (n < Size v \<longrightarrow>
              elements v' = take n (elements v) \<and> Capacity v' = Capacity v) \<and>
           (Size v \<le> n \<and> n \<le> Capacity v \<longrightarrow>
              elements v' = elements v @ replicate (n - Size v) d \<and> Capacity v' = Capacity v) \<and>
           (Capacity v < n \<longrightarrow>
              elements v' = elements v @ replicate (n - Size v) d \<and> Capacity v' = n)"
proof -
  from assms(3) obtain xs cap where v: "v = vec xs cap" and le: "length xs \<le> cap"
    by (rule invariant_vecE)
  consider (shrink) "n < length xs" | (room) "length xs \<le> n" "n \<le> cap" | (grow) "cap < n"
    by linarith
  then show ?thesis
  proof cases
    case shrink
    have "Resize E (vec xs cap) n = Normal () (vec (take n xs) cap)"
      using shrink le by (rule Resize_shrink_vec)
    moreover have "invariant (vec (take n xs) cap)"
      using shrink le by (intro invariant_vec) simp
    ultimately show ?thesis
      unfolding v using shrink le by (simp add: min_absorb2)
  next
    case room
    have "Resize E (vec xs cap) n = Normal () (vec (xs @ replicate (n - length xs) d) cap)"
      using assms(2) room by (rule Resize_room_vec)
    moreover have "invariant (vec (xs @ replicate (n - length xs) d) cap)"
      using room by (intro invariant_vec) simp
    ultimately show ?thesis
      unfolding v using room by simp
  next
    case grow
    have al: "allocates E n" using assms(4) grow by (simp add: v)
    have "Resize E (vec xs cap) n
       = Normal () (vec (map (if transfers_by_move E then (\<lambda>x. x) else (\<lambda>x. x)) xs
                           @ replicate (n - length xs) d) n)"
      using regular_simps(1,2)[OF assms(1)] assms(2) le grow al
      by (rule Resize_grow_vec[where cp = "\<lambda>x. x" and mv = "\<lambda>x. x"])
    then have "Resize E (vec xs cap) n = Normal () (vec (xs @ replicate (n - length xs) d) n)"
      by simp
    moreover have "invariant (vec (xs @ replicate (n - length xs) d) n)"
      using grow le by (intro invariant_vec) simp
    ultimately show ?thesis
      unfolding v using grow le by simp
  qed
qed

theorem C7_Resize_amended_witness:
  "regular int_type \<and> value_ctor int_type = Some 0 \<and> invariant (vec [1, 99, 3 :: int] 4) \<and>
   2 < Size (vec [1, 99, 3 :: int] 4) \<and>
   Size (vec [1, 99, 3 :: int] 4) \<le> 4 \<and> 4 \<le> Capacity (vec [1, 99, 3 :: int] 4) \<and>
   Capacity (vec [1, 99, 3 :: int] 4) < 5 \<and> allocates int_type 5 \<and>
   (\<exists>v'. Resize int_type (vec [1, 99, 3] 4) 2 = Normal () v' \<and> Size v' = 2 \<and>
          elements v' = [1, 99] \<and> Capacity v' = 4) \<and>
   (\<exists>v'. Resize int_type (vec [1, 99, 3] 4) 4 = Normal () v' \<and> Size v' = 4 \<and>
          elements v' = [1, 99, 3, 0] \<and> Capacity v' = 4) \<and>
   (\<exists>v'. Resize int_type (vec [1, 99, 3] 4) 5 = Normal () v' \<and> Size v' = 5 \<and>
          elements v' = [1, 99, 3, 0, 0] \<and> Capacity v' = 5)"
proof -
  let ?v = "vec [1, 99, 3 :: int] 4"
  have r: "regular int_type" by (simp add: regular_def int_type_def)
  have d: "value_ctor int_type = Some 0" by (simp add: int_type_def)
  have inv: "invariant ?v" by (simp add: invariant_vec)
  have h: "2 < Size ?v" "Size ?v \<le> 4" "4 \<le> Capacity ?v" "Capacity ?v < 5" by simp_all
  have al: "allocates int_type 5" by (intro allocates_int_type) simp
  have al2: "Capacity ?v < 2 \<longrightarrow> allocates int_type 2" and al4: "Capacity ?v < 4 \<longrightarrow> allocates int_type 4"
    and al5: "Capacity ?v < 5 \<longrightarrow> allocates int_type 5"
    using al by simp_all
  have rep: "replicate (5 - Size ?v) (0 :: int) = [0, 0]" "replicate (4 - Size ?v) (0 :: int) = [0]"
    by (simp_all add: numeral_eq_Suc)
  from C7_Resize_amended[OF r d inv al2] h
  have a: "\<exists>v'. Resize int_type ?v 2 = Normal () v' \<and> Size v' = 2 \<and> elements v' = [1, 99] \<and> Capacity v' = 4"
    by (auto simp: eval_nat_numeral)
  from C7_Resize_amended[OF r d inv al4] h rep
  have b: "\<exists>v'. Resize int_type ?v 4 = Normal () v' \<and> Size v' = 4 \<and> elements v' = [1, 99, 3, 0] \<and> Capacity v' = 4"
    by (auto simp: eval_nat_numeral)
  from C7_Resize_amended[OF r d inv al5] h rep
  have c: "\<exists>v'. Resize int_type ?v 5 = Normal () v' \<and> Size v' = 5 \<and> elements v' = [1, 99, 3, 0, 0] \<and> Capacity v' = 5"
    by (auto simp: eval_nat_numeral)
  show ?thesis using r d inv h al a b c by blast
qed

text \<open>
  Claim C8. For a vector that satisfies the invariant and an index \<open>i\<close> below its size,
  \<^verbatim>\<open>Erase(begin() + i)\<close> returns normally; afterwards the elements are those before
  without the one at index \<open>i\<close>, in the same order (the elements before \<open>i\<close> stay where
  they are, each later element is one slot to the left), the size is one less and the
  capacity is the same. The element type has value semantics.
\<close>

theorem C8_Erase:
  assumes "regular E" and "invariant v" and "i < Size v"
  shows "\<exists>v'. Erase E v (begin_it v + i) = Normal (begin_it v' + i) v' \<and>
           elements v' = take i (elements v) @ drop (Suc i) (elements v) \<and>
           Size v' = Size v - 1 \<and> Capacity v' = Capacity v \<and> invariant v'"
proof -
  define xs where "xs = elements v"
  define cap where "cap = Capacity v"
  have v: "v = vec xs cap"
    using invariant_is_vec[OF assms(2)] by (simp add: xs_def cap_def)
  have le: "length xs \<le> cap" and i: "i < length xs"
    using assms(2,3) unfolding v by (simp_all add: invariant_def)
  have "Erase E (vec xs cap) i = Normal i (vec (take i xs @ drop (Suc i) xs) cap)"
    using regular_simps(4)[OF assms(1)] i le by (rule Erase_vec)
  moreover have "invariant (vec (take i xs @ drop (Suc i) xs) cap)"
    using i le by (intro invariant_vec) simp
  ultimately show ?thesis
    using i unfolding v by (simp add: begin_it_def min_absorb2)
qed

theorem C8_Erase_witness:
  "regular int_type \<and> invariant (vec [1, 99, 2, 3 :: int] 4) \<and> 2 < Size (vec [1, 99, 2, 3 :: int] 4) \<and>
   (\<exists>v'. Erase int_type (vec [1, 99, 2, 3] 4) (begin_it (vec [1, 99, 2, 3 :: int] 4) + 2)
             = Normal (begin_it v' + 2) v' \<and>
          elements v' = [1, 99, 3] \<and> Size v' = 3 \<and> Capacity v' = 4 \<and> invariant v')"
proof -
  let ?v = "vec [1, 99, 2, 3 :: int] 4"
  have r: "regular int_type" by (simp add: regular_def int_type_def)
  have inv: "invariant ?v" by (simp add: invariant_vec)
  have lt: "2 < Size ?v" by simp
  from C8_Erase[OF r inv lt] obtain v' where
    e: "Erase int_type ?v (begin_it ?v + 2) = Normal (begin_it v' + 2) v'"
    and xs: "elements v' = take 2 (elements ?v) @ drop (Suc 2) (elements ?v)"
    and rest: "Size v' = Size ?v - 1" "Capacity v' = Capacity ?v" "invariant v'"
    by blast
  have "elements v' = [1, 99, 3]" "Size v' = 3" "Capacity v' = 4"
    using xs rest by simp_all
  with r inv lt e rest(3) show ?thesis by blast
qed

text \<open>
  Claim C9, as stated, fails in two ways. For a vector that is not empty: the vector \<open>[7]\<close>
  of capacity 1 after \<^verbatim>\<open>Reserve(2)\<close> has capacity 2 and still one element, and two
  \<^verbatim>\<open>PushBack\<close> calls (not more than \<open>n = 2\<close>) leave it with capacity 4: the second one
  finds size equal to capacity and reallocates. And for \<open>n = 2 ^ 62 + 1\<close> on the empty
  \<^verbatim>\<open>Vector<int>\<close>: the byte count \<^verbatim>\<open>n * sizeof(T)\<close> wraps round to 4, the new block has one
  slot under a \<^verbatim>\<open>capacity_\<close> of \<open>n\<close>, and the second of two \<^verbatim>\<open>PushBack\<close> calls writes
  past the block.
\<close>

theorem C9_counterexample:
  "regular int_type \<and>
   invariant \<lparr>data_m = \<lparr>buffer_m = [Some (7 :: int)], capacity_m = 1\<rparr>, size_m = 1\<rparr> \<and>
   Capacity \<lparr>data_m = \<lparr>buffer_m = [Some (7 :: int)], capacity_m = 1\<rparr>, size_m = 1\<rparr> < 2 \<and>
   length [8, 9 :: int] \<le> 2 \<and>
   Reserve int_type \<lparr>data_m = \<lparr>buffer_m = [Some 7], capacity_m = 1\<rparr>, size_m = 1\<rparr> 2
     = Normal () \<lparr>data_m = \<lparr>buffer_m = [Some 7, None], capacity_m = 2\<rparr>, size_m = 1\<rparr> \<and>
   PushBack_all int_type \<lparr>data_m = \<lparr>buffer_m = [Some 7, None], capacity_m = 2\<rparr>, size_m = 1\<rparr> [8, 9]
     = Normal () \<lparr>data_m = \<lparr>buffer_m = [Some 7, Some 8, Some 9, None], capacity_m = 4\<rparr>, size_m = 3\<rparr> \<and>
   Capacity \<lparr>data_m = \<lparr>buffer_m = [Some (7 :: int), Some 8, Some 9, None], capacity_m = 4\<rparr>, size_m = 3\<rparr> \<noteq> 2 \<and>
   invariant (Vector_default :: int Vector) \<and>
   Capacity (Vector_default :: int Vector) < 2 ^ 62 + 1 \<and>
   length [1, 2 :: int] \<le> 2 ^ 62 + 1 \<and>
   Reserve int_type Vector_default (2 ^ 62 + 1)
     = Normal () \<lparr>data_m = \<lparr>buffer_m = [None], capacity_m = 2 ^ 62 + 1\<rparr>, size_m = 0\<rparr> \<and>
   PushBack_all int_type \<lparr>data_m = \<lparr>buffer_m = [None], capacity_m = 2 ^ 62 + 1\<rparr>, size_m = 0\<rparr> [1, 2]
     = Undefined"
proof -
  have r: "regular int_type" by (simp add: regular_def int_type_def)
  have v0: "\<lparr>data_m = \<lparr>buffer_m = [Some (7 :: int)], capacity_m = 1\<rparr>, size_m = 1\<rparr> = vec [7] 1"
    and v1: "\<lparr>data_m = \<lparr>buffer_m = [Some (7 :: int), None], capacity_m = 2\<rparr>, size_m = 1\<rparr> = vec [7] 2"
    and v2: "\<lparr>data_m = \<lparr>buffer_m = [Some (7 :: int), Some 8, Some 9, None], capacity_m = 4\<rparr>, size_m = 3\<rparr>
               = vec [7, 8, 9] 4"
    by (simp_all add: vec_def eval_nat_numeral)
  have a: "Reserve int_type (vec [7] 1) 2 = Normal () (vec [7 :: int] 2)"
    using Reserve_vec[of int_type "\<lambda>x. x" "\<lambda>x. x" "[7]" 1 2] regular_simps(1,2)[OF r]
    by (simp add: allocates_int_type)
  have b: "PushBack_all int_type (vec [7] 2) [8, 9] = Normal () (vec [7, 8, 9 :: int] 4)"
    by (simp add: PushBack_copy_vec[OF r] allocates_int_type)
  have first: "invariant (vec [7 :: int] 1) \<and> Capacity (vec [7 :: int] 1) < 2 \<and> length [8, 9 :: int] \<le> 2 \<and>
      Reserve int_type (vec [7] 1) 2 = Normal () (vec [7] 2) \<and>
      PushBack_all int_type (vec [7] 2) [8, 9] = Normal () (vec [7, 8, 9] 4) \<and>
      Capacity (vec [7 :: int, 8, 9] 4) \<noteq> 2"
    using a b by (simp add: invariant_vec)
  let ?n = "2 ^ 62 + 1 :: nat"
  let ?u = "\<lparr>data_m = \<lparr>buffer_m = [None :: int option], capacity_m = ?n\<rparr>, size_m = 0\<rparr>"
  have wrap: "RawMemory_sized int_type ?n = Some \<lparr>buffer_m = [None], capacity_m = ?n\<rparr>"
    by (simp add: RawMemory_sized_def Allocate_def int_type_def)
  have c: "Reserve int_type Vector_default ?n = Normal () ?u"
    unfolding Reserve_def wrap
    by (simp add: Vector_default_def RawMemory_default_def transfer_n_def destroy_and_swap_def
        RawMemory_Swap_def GetAddress_def)
  have p1: "PushBack_copy int_type ?u 1
      = Normal () \<lparr>data_m = \<lparr>buffer_m = [Some 1], capacity_m = ?n\<rparr>, size_m = 1\<rparr>"
    by (simp add: PushBack_copy_def EmplaceBack_def Emplace_def Embed_def end_it_def begin_it_def
        RawMemory_plus_def GetAddress_def with_block_def int_type_def)
  have p2: "PushBack_copy int_type \<lparr>data_m = \<lparr>buffer_m = [Some 1], capacity_m = ?n\<rparr>, size_m = 1\<rparr> 2
      = Undefined"
    by (simp add: PushBack_copy_def EmplaceBack_def Emplace_def Embed_def end_it_def begin_it_def
        RawMemory_plus_def GetAddress_def with_block_def int_type_def)
  have d: "PushBack_all int_type ?u [1, 2] = Undefined"
    by (simp only: PushBack_all.simps p1 p2 outcome.case)
  have second: "invariant (Vector_default :: int Vector) \<and> Capacity (Vector_default :: int Vector) < ?n \<and>
      length [1, 2 :: int] \<le> ?n"
    by (simp add: Vector_default_vec invariant_vec)
  show ?thesis
    unfolding v0 v1 v2 using r first second c d by blast
qed

text \<open>
  Claim C9, amended. For a vector that satisfies the invariant and every \<open>n\<close>:
  \<^verbatim>\<open>Reserve(n)\<close> with \<open>n \<le> capacity\<close> changes nothing; with \<open>n > capacity\<close>, when the
  allocation of \<open>n\<close> slots succeeds (the byte count \<^verbatim>\<open>n * sizeof(T)\<close> does not wrap round
  and \<^verbatim>\<open>operator new\<close> returns), it makes the capacity exactly \<open>n\<close> and keeps size and
  elements, so that any run of \<^verbatim>\<open>PushBack\<close> calls that brings the size to at most \<open>n\<close> (up
  to \<open>n - size\<close> calls) returns normally with capacity \<open>n\<close>; as this holds for every such
  run, the capacity is \<open>n\<close> after each of its calls. The element type has value semantics.
  (By \<open>Reserve_bad_alloc\<close> the vector is as it was when \<^verbatim>\<open>operator new\<close> throws.)
\<close>

theorem C9_Reserve_amended:
  assumes "regular E" and "invariant v"
  shows "(n \<le> Capacity v \<longrightarrow> Reserve E v n = Normal () v) \<and>
         (Capacity v < n \<and> allocates E n \<longrightarrow>
           (\<exists>v'. Reserve E v n = Normal () v' \<and> Capacity v' = n \<and> Size v' = Size v \<and>
                  elements v' = elements v \<and> invariant v' \<and>
                  (\<forall>ys. Size v + length ys \<le> n \<longrightarrow>
                     (\<exists>v''. PushBack_all E v' ys = Normal () v'' \<and> Capacity v'' = n \<and>
                            elements v'' = elements v @ ys))))"
proof -
  from assms(2) obtain xs cap where v: "v = vec xs cap" and le: "length xs \<le> cap"
    by (rule invariant_vecE)
  have "Reserve E v n = Normal () v" if "n \<le> Capacity v"
    using that by (simp add: Reserve_def Capacity_def)
  moreover
  have "\<exists>v'. Reserve E v n = Normal () v' \<and> Capacity v' = n \<and> Size v' = Size v \<and>
              elements v' = elements v \<and> invariant v' \<and>
              (\<forall>ys. Size v + length ys \<le> n \<longrightarrow>
                 (\<exists>v''. PushBack_all E v' ys = Normal () v'' \<and> Capacity v'' = n \<and>
                        elements v'' = elements v @ ys))" if gt: "Capacity v < n" and al: "allocates E n"
  proof -
    have gt': "cap < n" using gt by (simp add: v)
    have "Reserve E (vec xs cap) n
       = Normal () (vec (map (if transfers_by_move E then (\<lambda>x. x) else (\<lambda>x. x)) xs) n)"
      using regular_simps(1,2)[OF assms(1)] le gt' al
      by (rule Reserve_vec[where cp = "\<lambda>x. x" and mv = "\<lambda>x. x"])
    then have res: "Reserve E (vec xs cap) n = Normal () (vec xs n)" by simp
    have inv: "invariant (vec xs n)" using le gt' by (intro invariant_vec) simp
    have "PushBack_all E (vec xs n) ys = Normal () (vec (xs @ ys) n)" if "length xs + length ys \<le> n" for ys
      using assms(1) that by (rule PushBack_all_room_vec)
    with res inv show ?thesis
      unfolding v by simp
  qed
  ultimately show ?thesis by blast
qed

theorem C9_Reserve_amended_witness:
  "regular int_type \<and> invariant (vec [7 :: int] 1) \<and>
   1 \<le> Capacity (vec [7 :: int] 1) \<and> Capacity (vec [7 :: int] 1) < 3 \<and> allocates int_type 3 \<and>
   Size (vec [7 :: int] 1) + length [8, 9 :: int] \<le> 3 \<and>
   Reserve int_type (vec [7] 1) 1 = Normal () (vec [7] 1) \<and>
   (\<exists>v'. Reserve int_type (vec [7] 1) 3 = Normal () v' \<and> Capacity v' = 3 \<and> Size v' = 1 \<and>
          elements v' = [7] \<and> invariant v' \<and>
          (\<exists>v''. PushBack_all int_type v' [8, 9] = Normal () v'' \<and> Capacity v'' = 3 \<and>
                 elements v'' = [7, 8, 9]))"
proof -
  let ?v = "vec [7 :: int] 1"
  have r: "regular int_type" by (simp add: regular_def int_type_def)
  have inv: "invariant ?v" by (simp add: invariant_vec)
  have h: "1 \<le> Capacity ?v" "Capacity ?v < 3" "Size ?v + length [8, 9 :: int] \<le> 3" by simp_all
  have al: "allocates int_type 3" by (intro allocates_int_type) simp
  from C9_Reserve_amended[OF r inv, of 1] h
  have a: "Reserve int_type ?v 1 = Normal () ?v" by simp
  from C9_Reserve_amended[OF r inv, of 3] h al obtain v' where
    v': "Reserve int_type ?v 3 = Normal () v'" "Capacity v' = 3" "Size v' = Size ?v"
      "elements v' = elements ?v" "invariant v'"
    and p: "\<forall>ys. Size ?v + length ys \<le> 3 \<longrightarrow>
              (\<exists>v''. PushBack_all int_type v' ys = Normal () v'' \<and> Capacity v'' = 3 \<and>
                     elements v'' = elements ?v @ ys)"
    by blast
  from p h(3) obtain v'' where
    "PushBack_all int_type v' [8, 9] = Normal () v''" "Capacity v'' = 3" "elements v'' = elements ?v @ [8, 9]"
    by blast
  then have "\<exists>v''. PushBack_all int_type v' [8, 9] = Normal () v'' \<and> Capacity v'' = 3 \<and>
                 elements v'' = [7, 8, 9]" by simp
  moreover have "Size v' = 1" "elements v' = [7]" using v' by simp_all
  ultimately show ?thesis using r inv h al a v' by blast
qed

text \<open>
  Claim C10. For a vector that satisfies the invariant and a position \<^verbatim>\<open>begin() + i\<close>:
  with \<open>i \<le> size\<close>, \<^verbatim>\<open>Emplace\<close> returns \<^verbatim>\<open>begin() + i\<close> of the vector afterwards, and
  the new element is there; with \<open>i < size\<close>, \<^verbatim>\<open>Erase\<close> returns \<^verbatim>\<open>begin() + i\<close> of the
  vector afterwards, where the element that followed the erased one now is, or which is
  \<^verbatim>\<open>end()\<close> when the last element was erased. The element type has value semantics, and
  when \<^verbatim>\<open>Emplace\<close> finds size equal to capacity the allocation of the new block of
  \<open>max 1 (size * 2)\<close> slots succeeds.
\<close>

theorem C10_returned_iterators:
  assumes "regular E" and "invariant v"
  shows "(i \<le> Size v \<and> (Size v = Capacity v \<longrightarrow> allocates E (max 1 (Size v * 2))) \<longrightarrow>
           (\<exists>v'. Emplace E v (begin_it v + i) (Some x) = Normal (begin_it v' + i) v' \<and>
                  Vector_index v' i = Some x)) \<and>
         (i < Size v \<longrightarrow>
           (\<exists>v'. Erase E v (begin_it v + i) = Normal (begin_it v' + i) v' \<and>
                  (if Suc i < Size v then Vector_index v' i = Vector_index v (Suc i)
                   else end_it v' = Some (begin_it v' + i))))"
proof -
  from assms(2) obtain xs cap where v: "v = vec xs cap" and le: "length xs \<le> cap"
    by (rule invariant_vecE)
  have "\<exists>v'. Emplace E v (begin_it v + i) (Some x) = Normal (begin_it v' + i) v' \<and>
              Vector_index v' i = Some x"
    if i: "i \<le> Size v" and al: "Size v = Capacity v \<longrightarrow> allocates E (max 1 (Size v * 2))"
  proof -
    let ?c = "if length xs = cap then (if length xs = 0 then 1 else length xs * 2) else cap"
    have i': "i \<le> length xs" using i by (simp add: v)
    have c: "Suc (length xs) \<le> ?c" using le by auto
    have al': "length xs = cap \<longrightarrow> allocates E (if length xs = 0 then 1 else length xs * 2)"
      using al unfolding v growth_count Size_vec Capacity_vec by blast
    have "Emplace E (vec xs cap) i (Some x) = Normal i (vec (take i xs @ x # drop i xs) ?c)"
      using assms(1) i' le al' by (rule Emplace_vec)
    moreover have "Vector_index (vec (take i xs @ x # drop i xs) ?c) i = Some x"
      using i' c by (subst Vector_index_vec) (simp_all add: nth_append min_absorb2)
    ultimately show ?thesis
      unfolding v by (simp add: begin_it_def)
  qed
  moreover
  have "\<exists>v'. Erase E v (begin_it v + i) = Normal (begin_it v' + i) v' \<and>
              (if Suc i < Size v then Vector_index v' i = Vector_index v (Suc i)
               else end_it v' = Some (begin_it v' + i))" if i: "i < Size v"
  proof -
    have i': "i < length xs" using i by (simp add: v)
    let ?ys = "take i xs @ drop (Suc i) xs"
    have len: "length ?ys = length xs - 1" using i' by (simp add: min_absorb2)
    have e: "Erase E (vec xs cap) i = Normal i (vec ?ys cap)"
      using regular_simps(4)[OF assms(1)] i' le by (rule Erase_vec)
    have le': "length ?ys \<le> cap" using len le by simp
    have "Vector_index (vec ?ys cap) i = Vector_index (vec xs cap) (Suc i)" if "Suc i < length xs"
      using that le by (simp add: Vector_index_vec[OF le'] Vector_index_vec[OF le] nth_append min_absorb2)
    moreover have "end_it (vec ?ys cap) = Some i" if "\<not> Suc i < length xs"
    proof -
      have "length ?ys = i" using that i' len by linarith
      then show ?thesis using end_it_vec[OF le'] by simp
    qed
    ultimately show ?thesis
      unfolding v using e by (simp add: begin_it_def)
  qed
  ultimately show ?thesis by blast
qed

theorem C10_returned_iterators_witness:
  "regular int_type \<and> invariant (vec [1, 2, 3 :: int] 4) \<and>
   1 \<le> Size (vec [1, 2, 3 :: int] 4) \<and> 1 < Size (vec [1, 2, 3 :: int] 4) \<and>
   2 < Size (vec [1, 2, 3 :: int] 4) \<and>
   Size (vec [4, 5 :: int] 2) = Capacity (vec [4, 5 :: int] 2) \<and> invariant (vec [4, 5 :: int] 2) \<and>
   allocates int_type (max 1 (Size (vec [4, 5 :: int] 2) * 2)) \<and> 1 \<le> Size (vec [4, 5 :: int] 2) \<and>
   (\<exists>v'. Emplace int_type (vec [4, 5] 2) (begin_it (vec [4, 5 :: int] 2) + 1) (Some 99)
            = Normal (begin_it v' + 1) v' \<and> Vector_index v' 1 = Some 99) \<and>
   (\<exists>v'. Emplace int_type (vec [1, 2, 3] 4) (begin_it (vec [1, 2, 3 :: int] 4) + 1) (Some 99)
            = Normal (begin_it v' + 1) v' \<and> Vector_index v' 1 = Some 99) \<and>
   (\<exists>v'. Erase int_type (vec [1, 2, 3] 4) (begin_it (vec [1, 2, 3 :: int] 4) + 1)
            = Normal (begin_it v' + 1) v' \<and> Vector_index v' 1 = Some 3) \<and>
   (\<exists>v'. Erase int_type (vec [1, 2, 3] 4) (begin_it (vec [1, 2, 3 :: int] 4) + 2)
            = Normal (begin_it v' + 2) v' \<and> end_it v' = Some (begin_it v' + 2))"
proof -
  let ?v = "vec [1, 2, 3 :: int] 4"
  have r: "regular int_type" by (simp add: regular_def int_type_def)
  have inv: "invariant ?v" by (simp add: invariant_vec)
  have h: "1 \<le> Size ?v" "1 < Size ?v" "2 < Size ?v" by simp_all
  have ix: "Vector_index ?v (Suc 1) = Some 3"
    by (simp add: Vector_index_def RawMemory_index_def vec_def)
  let ?w = "vec [4, 5 :: int] 2"
  have invw: "invariant ?w" by (simp add: invariant_vec)
  have hw: "Size ?w = Capacity ?w" "1 \<le> Size ?w" by simp_all
  have alw: "allocates int_type (max 1 (Size ?w * 2))" by (intro allocates_int_type) simp
  from C10_returned_iterators[OF r invw, of 1 99] hw alw
  have g: "\<exists>v'. Emplace int_type ?w (begin_it ?w + 1) (Some 99)
            = Normal (begin_it v' + 1) v' \<and> Vector_index v' 1 = Some 99"
    by blast
  from C10_returned_iterators[OF r inv, of 1 99] h ix
  have a: "(\<exists>v'. Emplace int_type ?v (begin_it ?v + 1) (Some 99)
            = Normal (begin_it v' + 1) v' \<and> Vector_index v' 1 = Some 99) \<and>
   (\<exists>v'. Erase int_type ?v (begin_it ?v + 1)
            = Normal (begin_it v' + 1) v' \<and> Vector_index v' 1 = Some 3)"
    by simp
  from C10_returned_iterators[OF r inv, of 2 99] h
  have b: "\<exists>v'. Erase int_type ?v (begin_it ?v + 2)
            = Normal (begin_it v' + 2) v' \<and> end_it v' = Some (begin_it v' + 2)"
    by (simp add: eval_nat_numeral)
  show ?thesis using r inv h invw hw alw g a b by blast
qed

end
